theory Spec2Isabelle
  imports Main "HOL-Library.AList"
begin

section \<open>LookingGlass gateway: sessions, the host and the environment\<close>

text \<open>
  The gateway of \<^verbatim>\<open>main.go\<close> keeps one table of running desktop sessions, starts and
  stops containers through external commands and answers HTTP requests. The model is a
  state-passing one: every handler takes the world and returns it updated, together with
  its HTTP response. What the program cannot decide itself (the clock, the random
  generator of \<^verbatim>\<open>math/rand\<close>, the result of every external command, the user
  configuration files) is held in an environment the world carries unchanged.
\<close>

subsection \<open>Data\<close>

text \<open>
  A \<^verbatim>\<open>time.Time\<close> as \<^verbatim>\<open>time.Now()\<close> returns it: the wall clock reading
  (\<^verbatim>\<open>UnixNano\<close>) and the monotonic reading that \<^verbatim>\<open>time.Since\<close> and the
  comparisons of Go use, both in nanoseconds. Durations are 64-bit in Go; the gateway only
  subtracts readings of one process, so unbounded integers stand for them.
\<close>

record Time =
  wall_ns :: int
  mono_ns :: int

record Session =
  Username :: string
  ContainerName :: string
  OverlayDir :: string
  Port :: int
  LastActive :: Time
  Ephemeral :: bool

text \<open>
  The external calls of the gateway, with the parts of each that vary:
  \<^item> \<open>MkdirAll d\<close>: \<^verbatim>\<open>os.MkdirAll(d, 0755)\<close>;
  \<^item> \<open>MountOverlay lower upper work merged\<close>:
    \<^verbatim>\<open>mount -t overlay overlay -o lowerdir=..,upperdir=..,workdir=.. merged\<close>;
  \<^item> \<open>DockerRun port name merged\<close>:
    \<^verbatim>\<open>docker run -d --rm --privileged -p port:8080 --name name -v merged:/:rshared ubuntu-xfce-novnc\<close>;
  \<^item> \<open>UmountLazy merged\<close>: \<^verbatim>\<open>umount -l merged\<close>;
  \<^item> \<open>DockerRmForce name\<close>: \<^verbatim>\<open>docker rm -f name\<close>;
  \<^item> \<open>RemoveAll d\<close>: \<^verbatim>\<open>os.RemoveAll(d)\<close>.
  The result of a call is \<open>None\<close> for a nil error and \<open>Some msg\<close> for an error with
  text \<open>msg\<close>.
\<close>

datatype cmd =
    MkdirAll string
  | MountOverlay string string string string
  | DockerRun int string string
  | UmountLazy string
  | DockerRmForce string
  | RemoveAll string

type_synonym err = "string option"

text \<open>
  What the gateway's calls leave on the host: the path names that exist in the storage
  tree and the mount table (one entry per mount, newest first; the same mount point can
  be mounted over several times).
\<close>

record host =
  paths :: "string set"
  mounts :: "string list"

text \<open>
  A user configuration file as \<^verbatim>\<open>login\<close> sees it: \<^verbatim>\<open>os.Stat\<close> reports that it
  does not exist, \<^verbatim>\<open>ini.Load\<close> fails, or the file loads and the keys
  \<^verbatim>\<open>password\<close> and \<^verbatim>\<open>overlay\<close> of section \<^verbatim>\<open>user\<close> read as two strings (an absent
  key reads as the empty string).
\<close>

datatype conf_file = NotExist | LoadError | Loaded string string

text \<open>
  The environment: \<open>env_clock k\<close> is the reading of the \<open>k\<close>-th call of
  \<^verbatim>\<open>time.Now()\<close>; \<open>env_rand seed i\<close> is the \<open>i\<close>-th number the generator of
  \<^verbatim>\<open>math/rand\<close> gives after \<^verbatim>\<open>rand.Seed(seed)\<close>, of which only that it is a
  function of the seed and the position is used; \<open>env_exec k\<close> is the result of the
  \<open>k\<close>-th external call; \<open>env_conf p\<close> is the configuration file at path \<open>p\<close>.
\<close>

record env =
  env_clock :: "nat \<Rightarrow> Time"
  env_rand :: "int \<Rightarrow> nat \<Rightarrow> nat"
  env_exec :: "nat \<Rightarrow> err"
  env_conf :: "string \<Rightarrow> conf_file"

text \<open>
  The world: the global \<^verbatim>\<open>sessions\<close> map (an association list; the order of the list
  is the order in which \<^verbatim>\<open>range\<close> visits the map), the mutex \<^verbatim>\<open>sessionsMu\<close> (held
  or free), the state of the global random source, the number of clock readings taken, the
  external calls made so far with their results, the host and the environment.
\<close>

record world =
  sessions :: "(string \<times> Session) list"
  sessionsMu :: bool
  rand_seed :: int
  rand_pos :: nat
  clock_pos :: nat
  trace :: "(cmd \<times> err) list"
  host :: host
  env :: env

text \<open>
  A call either returns, with a value and the world it leaves, or blocks for ever in
  \<^verbatim>\<open>sessionsMu.Lock()\<close>, in the world it had reached.
\<close>

datatype 'a outcome = Returned 'a world | Blocked world

fun world_of :: "'a outcome \<Rightarrow> world" where
  "world_of (Returned x w) = w"
| "world_of (Blocked w) = w"

fun result_of :: "'a outcome \<Rightarrow> 'a option" where
  "result_of (Returned x w) = Some x"
| "result_of (Blocked w) = None"

datatype response =
    HttpError nat string
  | Redirect string nat
  | Template string "(string \<times> string) list"
  | Status nat
  | Forward string int string

text \<open>
  \<open>HttpError code msg\<close> is \<^verbatim>\<open>http.Error(w, msg, code)\<close>, \<open>Redirect url code\<close> is
  \<^verbatim>\<open>http.Redirect\<close>, \<open>Template name data\<close> is \<^verbatim>\<open>renderTemplate(w, name, data)\<close>,
  \<open>Status code\<close> is \<^verbatim>\<open>w.WriteHeader(code)\<close>, and \<open>Forward h p path\<close> hands the
  request to the reverse proxy for \<^verbatim>\<open>http://h:p\<close> with the request path set to
  \<open>path\<close>.
\<close>

record request =
  req_path :: string
  req_form :: "(string \<times> string) list option"

text \<open>
  \<open>req_path\<close> is \<^verbatim>\<open>r.URL.Path\<close>; \<open>req_form\<close> is the parsed form, \<open>None\<close> when
  \<^verbatim>\<open>r.ParseForm()\<close> fails.
\<close>

subsection \<open>Constants of the program\<close>

definition userConfDir :: string where
  "userConfDir = ''./users''"

definition baseOverlay :: string where
  "baseOverlay = ''/srv/overlays/base''"

definition sessionExpiry :: int where
  "sessionExpiry = 10 * (60 * 1000000000)"

definition letters :: string where
  "letters = ''abcdefghijklmnopqrstuvwxyz0123456789''"

subsection \<open>Library functions the program calls\<close>

text \<open>
  \<^verbatim>\<open>filepath.Join\<close> on a Unix host: the elements from the first non-empty one on are
  joined with a slash and the result is cleaned (\<^verbatim>\<open>filepath.Clean\<close>): empty and
  \<^verbatim>\<open>.\<close> elements go, a \<^verbatim>\<open>..\<close> element removes the element before it, or is dropped
  at the root, or stays at the start of a relative path.
\<close>

fun split_slash :: "string \<Rightarrow> string list" where
  "split_slash [] = [[]]"
| "split_slash (c # cs) =
     (if c = CHR ''/'' then [] # split_slash cs
      else (case split_slash cs of [] \<Rightarrow> [[c]] | x # xs \<Rightarrow> (c # x) # xs))"

fun clean_elems :: "bool \<Rightarrow> string list \<Rightarrow> string list \<Rightarrow> string list" where
  "clean_elems rooted acc [] = rev acc"
| "clean_elems rooted acc (e # es) =
     (if e = [] \<or> e = ''.'' then clean_elems rooted acc es
      else if e = ''..'' then
        (case acc of
           [] \<Rightarrow> if rooted then clean_elems rooted [] es else clean_elems rooted [''..''] es
         | a # as \<Rightarrow> if a = ''..'' then clean_elems rooted (''..'' # acc) es
                     else clean_elems rooted as es)
      else clean_elems rooted (e # acc) es)"

fun join_slash :: "string list \<Rightarrow> string" where
  "join_slash [] = []"
| "join_slash [e] = e"
| "join_slash (e # es) = e @ ''/'' @ join_slash es"

definition Clean :: "string \<Rightarrow> string" where
  "Clean p =
     (let rooted = (p \<noteq> [] \<and> hd p = CHR ''/'');
          es = clean_elems rooted [] (split_slash p)
      in if rooted then ''/'' @ join_slash es
         else if es = [] then ''.'' else join_slash es)"

definition Join :: "string list \<Rightarrow> string" where
  "Join elem =
     (let es = dropWhile (\<lambda>e. e = []) elem
      in if es = [] then [] else Clean (join_slash es))"

text \<open>\<^verbatim>\<open>strings.TrimPrefix(s, prefix)\<close>.\<close>

definition TrimPrefix :: "string \<Rightarrow> string \<Rightarrow> string" where
  "TrimPrefix s p = (if take (length p) s = p then drop (length p) s else s)"

text \<open>
  \<^verbatim>\<open>strings.SplitN(s, "/", 2)\<close>: the part before the first slash and the part after it,
  or \<open>s\<close> alone when it has no slash.
\<close>

definition SplitN_slash_2 :: "string \<Rightarrow> string list" where
  "SplitN_slash_2 s =
     (if CHR ''/'' \<in> set s
      then [takeWhile (\<lambda>c. c \<noteq> CHR ''/'') s, tl (dropWhile (\<lambda>c. c \<noteq> CHR ''/'') s)]
      else [s])"

text \<open>\<^verbatim>\<open>r.FormValue(key)\<close>: the first value of the key, or the empty string.\<close>

definition FormValue :: "(string \<times> string) list \<Rightarrow> string \<Rightarrow> string" where
  "FormValue form k = (case map_of form k of None \<Rightarrow> [] | Some v \<Rightarrow> v)"

text \<open>\<^verbatim>\<open>time.Now()\<close> takes the next reading of the clock.\<close>

definition Now :: "world \<Rightarrow> Time \<times> world" where
  "Now w = (env_clock (env w) (clock_pos w), w\<lparr>clock_pos := Suc (clock_pos w)\<rparr>)"

text \<open>\<^verbatim>\<open>t.Sub(u)\<close>, on the monotonic readings; \<^verbatim>\<open>time.Since(u)\<close> is \<^verbatim>\<open>time.Now().Sub(u)\<close>.\<close>

definition Sub :: "Time \<Rightarrow> Time \<Rightarrow> int" where
  "Sub t u = mono_ns t - mono_ns u"

definition Since :: "Time \<Rightarrow> world \<Rightarrow> int \<times> world" where
  "Since u w = (let (t, w1) = Now w in (Sub t u, w1))"

text \<open>\<^verbatim>\<open>rand.Seed\<close> and \<^verbatim>\<open>rand.Intn\<close> on the global source; \<open>Intn n\<close> is below \<open>n\<close>.\<close>

definition Seed :: "int \<Rightarrow> world \<Rightarrow> world" where
  "Seed s w = w\<lparr>rand_seed := s, rand_pos := 0\<rparr>"

definition Intn :: "nat \<Rightarrow> world \<Rightarrow> nat \<times> world" where
  "Intn n w =
     (env_rand (env w) (rand_seed w) (rand_pos w) mod n, w\<lparr>rand_pos := Suc (rand_pos w)\<rparr>)"

text \<open>
  \<^verbatim>\<open>sessionsMu.Lock()\<close>: a \<^verbatim>\<open>sync.Mutex\<close> is not reentrant, and every \<^verbatim>\<open>Unlock\<close>
  of the program follows a \<^verbatim>\<open>Lock\<close> of the same function, so a \<^verbatim>\<open>Lock\<close> on the
  held mutex never returns (\<open>None\<close>).
\<close>

definition Lock :: "world \<Rightarrow> world option" where
  "Lock w = (if sessionsMu w then None else Some (w\<lparr>sessionsMu := True\<rparr>))"

definition Unlock :: "world \<Rightarrow> world" where
  "Unlock w = w\<lparr>sessionsMu := False\<rparr>"

subsection \<open>External calls and their effect on the host\<close>

text \<open>
  The paths of the host are clean names. \<open>under_root d p\<close>: the path \<open>p\<close> is the one that
  \<open>d\<close> names or lies below it; the empty name names nothing (\<^verbatim>\<open>os.RemoveAll("")\<close>
  removes nothing). \<open>parent_dirs p\<close> are the directories above \<open>p\<close>.
\<close>

definition under_root :: "string \<Rightarrow> string \<Rightarrow> bool" where
  "under_root d p =
     (d \<noteq> [] \<and>
      (let c = Clean d;
           r = (if last c = CHR ''/'' then c else c @ ''/'')
       in p = c \<or> take (length r) p = r))"

definition parent_dirs :: "string \<Rightarrow> string list" where
  "parent_dirs p = map (\<lambda>k. take (max k 1) p) (filter (\<lambda>k. p ! k = CHR ''/'') [0..<length p])"

text \<open>
  The effect of a call that succeeded: \<^verbatim>\<open>os.MkdirAll\<close> creates the directory and its
  parents, \<^verbatim>\<open>os.RemoveAll\<close> removes the path and everything below it, a mount adds an
  entry for its mount point, \<^verbatim>\<open>umount -l\<close> detaches the newest mount on the mount point.
  Containers are not tracked in the host.
\<close>

fun effect :: "cmd \<Rightarrow> host \<Rightarrow> host" where
  "effect (MkdirAll d) h = h\<lparr>paths := paths h \<union> set (d # parent_dirs d)\<rparr>"
| "effect (RemoveAll d) h = h\<lparr>paths := {p \<in> paths h. \<not> under_root d p}\<rparr>"
| "effect (MountOverlay lower upper work merged) h = h\<lparr>mounts := merged # mounts h\<rparr>"
| "effect (UmountLazy merged) h = h\<lparr>mounts := remove1 merged (mounts h)\<rparr>"
| "effect (DockerRun port name merged) h = h"
| "effect (DockerRmForce name) h = h"

text \<open>
  \<open>run c\<close> makes the external call \<open>c\<close>: the environment gives its result, the call is
  recorded with it, and the host changes when the call succeeded.
\<close>

definition run :: "cmd \<Rightarrow> world \<Rightarrow> err \<times> world" where
  "run c w =
     (let r = env_exec (env w) (length (trace w))
      in (r, w\<lparr>trace := trace w @ [(c, r)],
                host := (case r of None \<Rightarrow> effect c (host w) | Some e \<Rightarrow> host w)\<rparr>))"

subsection \<open>Utility functions\<close>

text \<open>\<^verbatim>\<open>randSeq(n)\<close>: reseeds the generator from the clock, then draws \<open>n\<close> letters.\<close>

fun draw_letters :: "nat \<Rightarrow> world \<Rightarrow> string \<times> world" where
  "draw_letters 0 w = ([], w)"
| "draw_letters (Suc k) w =
     (let (i, w1) = Intn (length letters) w;
          (cs, w2) = draw_letters k w1
      in (letters ! i # cs, w2))"

definition randSeq :: "nat \<Rightarrow> world \<Rightarrow> string \<times> world" where
  "randSeq n w = (let (t, w1) = Now w in draw_letters n (Seed (wall_ns t) w1))"

text \<open>\<^verbatim>\<open>randomPort()\<close>.\<close>

definition randomPort :: "world \<Rightarrow> int \<times> world" where
  "randomPort w = (let (i, w1) = Intn 5000 w in (10000 + int i, w1))"

subsection \<open>Stopping a session\<close>

definition stopSession :: "string \<Rightarrow> world \<Rightarrow> unit outcome" where
  "stopSession sessionID w =
     (case Lock w of
        None \<Rightarrow> Blocked w
      | Some w1 \<Rightarrow>
          (case map_of (sessions w1) sessionID of
             None \<Rightarrow> Returned () (Unlock w1)
           | Some s \<Rightarrow>
               (let w2 = snd (run (DockerRmForce (ContainerName s)) w1);
                    merged = Join [OverlayDir s, ''merged''];
                    w3 = snd (run (UmountLazy merged) w2);
                    w4 = (if Ephemeral s then snd (run (RemoveAll (OverlayDir s)) w3) else w3)
                in Returned () (Unlock (w4\<lparr>sessions := AList.delete sessionID (sessions w4)\<rparr>)))))"

subsection \<open>Login\<close>

text \<open>
  The choice of the overlay directory: a fresh guest directory for the setting
  \<^verbatim>\<open>ephemeral\<close>, the configured path otherwise.
\<close>

definition choose_overlay :: "string \<Rightarrow> world \<Rightarrow> (string \<times> bool) \<times> world" where
  "choose_overlay overlaySetting w =
     (if overlaySetting = ''ephemeral''
      then (let (g, w1) = randSeq 6 w in ((Join [''/srv/overlays'', ''guest-'' @ g], True), w1))
      else ((overlaySetting, False), w))"

text \<open>The loop over \<^verbatim>\<open>upper, work, merged\<close>: it stops at the first directory that fails.\<close>

fun ensure_dirs :: "string list \<Rightarrow> world \<Rightarrow> err \<times> world" where
  "ensure_dirs [] w = (None, w)"
| "ensure_dirs (d # ds) w =
     (case run (MkdirAll d) w of
        (Some e, w1) \<Rightarrow> (Some e, w1)
      | (None, w1) \<Rightarrow> ensure_dirs ds w1)"

text \<open>The critical section that saves the session.\<close>

definition save_session ::
  "string \<Rightarrow> string \<Rightarrow> string \<Rightarrow> string \<Rightarrow> int \<Rightarrow> bool \<Rightarrow> world \<Rightarrow> response outcome" where
  "save_session sessionID username containerName overlayDir port ephemeral w =
     (case Lock w of
        None \<Rightarrow> Blocked w
      | Some w1 \<Rightarrow>
          (let (t, w2) = Now w1;
               s = \<lparr>Username = username, ContainerName = containerName,
                    OverlayDir = overlayDir, Port = port, LastActive = t,
                    Ephemeral = ephemeral\<rparr>;
               w3 = w2\<lparr>sessions := AList.update sessionID s (sessions w2)\<rparr>
           in Returned (Redirect (''/session/'' @ sessionID) 302) (Unlock w3)))"

text \<open>The part of \<^verbatim>\<open>login\<close> after the credentials have been accepted.\<close>

definition start_desktop :: "string \<Rightarrow> string \<Rightarrow> world \<Rightarrow> response outcome" where
  "start_desktop username overlaySetting w =
     (let ((overlayDir, ephemeral), w1) = choose_overlay overlaySetting w;
          upper = Join [overlayDir, ''upper''];
          work = Join [overlayDir, ''work''];
          merged = Join [overlayDir, ''merged'']
      in case ensure_dirs [upper, work, merged] w1 of
           (Some e, w2) \<Rightarrow> Returned (HttpError 500 ''Failed to create overlay dirs'') w2
         | (None, w2) \<Rightarrow>
             (case run (MountOverlay baseOverlay upper work merged) w2 of
                (Some e, w3) \<Rightarrow> Returned (HttpError 500 (''Failed to mount overlay: '' @ e)) w3
              | (None, w3) \<Rightarrow>
                  (let (sessionID, w4) = randSeq 8 w3;
                       (port, w5) = randomPort w4;
                       containerName = ''desktop-'' @ username @ ''-'' @ sessionID
                   in case run (DockerRun port containerName merged) w5 of
                        (Some e, w6) \<Rightarrow>
                          (let w7 = snd (run (UmountLazy merged) w6)
                           in Returned (HttpError 500 (''Failed to start container: '' @ e)) w7)
                      | (None, w6) \<Rightarrow>
                          save_session sessionID username containerName overlayDir port
                            ephemeral w6)))"

definition login :: "request \<Rightarrow> world \<Rightarrow> response outcome" where
  "login r w =
     (case req_form r of
        None \<Rightarrow> Returned (HttpError 400 ''Invalid form'') w
      | Some form \<Rightarrow>
          (let username = FormValue form ''username'';
               password = FormValue form ''password'';
               confPath = Join [userConfDir, username @ ''.conf'']
           in case env_conf (env w) confPath of
                NotExist \<Rightarrow> Returned (HttpError 401 ''Invalid user'') w
              | LoadError \<Rightarrow> Returned (HttpError 500 ''Config error'') w
              | Loaded cfg_password overlaySetting \<Rightarrow>
                  if cfg_password \<noteq> password
                  then Returned (HttpError 401 ''Invalid credentials'') w
                  else start_desktop username overlaySetting w))"

subsection \<open>The session page, the proxy, the heartbeat and logout\<close>

text \<open>
  The lookup that refreshes \<^verbatim>\<open>LastActive\<close>, as \<^verbatim>\<open>session\<close>, \<^verbatim>\<open>proxyHandler\<close> and
  \<^verbatim>\<open>ping\<close> each write it out between \<^verbatim>\<open>Lock\<close> and \<^verbatim>\<open>Unlock\<close>: the session
  found, with its new timestamp, if there is one.
\<close>

definition touch :: "string \<Rightarrow> world \<Rightarrow> Session option \<times> world" where
  "touch sessionID w =
     (case map_of (sessions w) sessionID of
        None \<Rightarrow> (None, w)
      | Some s \<Rightarrow>
          (let (t, w1) = Now w;
               s1 = s\<lparr>LastActive := t\<rparr>
           in (Some s1, w1\<lparr>sessions := AList.update sessionID s1 (sessions w1)\<rparr>)))"

definition session :: "request \<Rightarrow> world \<Rightarrow> response outcome" where
  "session r w =
     (let sessionID = TrimPrefix (req_path r) ''/session/''
      in case Lock w of
           None \<Rightarrow> Blocked w
         | Some w1 \<Rightarrow>
             (case touch sessionID w1 of
                (None, w2) \<Rightarrow> Returned (HttpError 404 ''Session not found'') (Unlock w2)
              | (Some s, w2) \<Rightarrow>
                  Returned (Template ''session.html'' [(''SessionID'', sessionID)]) (Unlock w2)))"

definition proxyHandler :: "request \<Rightarrow> world \<Rightarrow> response outcome" where
  "proxyHandler r w =
     (let parts = SplitN_slash_2 (TrimPrefix (req_path r) ''/proxy/'')
      in if length parts < 2 then Returned (HttpError 400 ''Bad proxy path'') w
         else
           (let sessionID = parts ! 0; rest = parts ! 1
            in case Lock w of
                 None \<Rightarrow> Blocked w
               | Some w1 \<Rightarrow>
                   (case touch sessionID w1 of
                      (None, w2) \<Rightarrow> Returned (HttpError 404 ''Session not found'') (Unlock w2)
                    | (Some s, w2) \<Rightarrow>
                        Returned (Forward ''127.0.0.1'' (Port s) (''/'' @ rest)) (Unlock w2))))"


definition logout :: "request \<Rightarrow> world \<Rightarrow> response outcome" where
  "logout r w =
     (let sessionID = TrimPrefix (req_path r) ''/logout/''
      in case stopSession sessionID w of
           Blocked b \<Rightarrow> Blocked b
         | Returned u w1 \<Rightarrow> Returned (Redirect ''/'' 302) w1)"

subsection \<open>The idle reaper\<close>

text \<open>
  One round of the loop of \<^verbatim>\<open>cleanupLoop\<close>, after its sleep: with the mutex held, the
  keys of the map are visited; a key removed in the meantime is skipped, as \<^verbatim>\<open>range\<close>
  does; \<^verbatim>\<open>time.Since\<close> reads the clock for every session visited.
\<close>

fun scan_sessions :: "string list \<Rightarrow> world \<Rightarrow> unit outcome" where
  "scan_sessions [] w = Returned () w"
| "scan_sessions (sid # ids) w =
     (case map_of (sessions w) sid of
        None \<Rightarrow> scan_sessions ids w
      | Some s \<Rightarrow>
          (let (idle, w1) = Since (LastActive s) w
           in if idle > sessionExpiry
              then (case stopSession sid w1 of
                      Blocked b \<Rightarrow> Blocked b
                    | Returned u w2 \<Rightarrow> scan_sessions ids w2)
              else scan_sessions ids w1))"

definition cleanup_round :: "world \<Rightarrow> unit outcome" where
  "cleanup_round w =
     (case Lock w of
        None \<Rightarrow> Blocked w
      | Some w1 \<Rightarrow>
          (case scan_sessions (map fst (sessions w1)) w1 of
             Blocked b \<Rightarrow> Blocked b
           | Returned u w2 \<Rightarrow> Returned () (Unlock w2)))"

text \<open>\<^verbatim>\<open>cleanupLoop\<close> itself never returns; \<open>cleanupLoop n\<close> is its first \<open>n\<close> rounds.\<close>

fun cleanupLoop :: "nat \<Rightarrow> world \<Rightarrow> unit outcome" where
  "cleanupLoop 0 w = Returned () w"
| "cleanupLoop (Suc n) w =
     (case cleanup_round w of
        Blocked b \<Rightarrow> Blocked b
      | Returned u w1 \<Rightarrow> cleanupLoop n w1)"

section \<open>Notions used to state the properties\<close>

subsection \<open>What a login draws\<close>

text \<open>
  The string that \<^verbatim>\<open>randSeq(n)\<close> builds once the generator has been seeded with
  \<open>seed\<close>, and the values a login computes from the world it starts in: the position of
  the clock when \<^verbatim>\<open>randSeq(8)\<close> reseeds the generator (one reading later for a guest,
  whose directory name took a reading), the overlay directory, the session id, the port
  and the session record. The lemmas on login below show that these are what \<open>login\<close>
  registers.
\<close>

definition seq_of :: "env \<Rightarrow> int \<Rightarrow> nat \<Rightarrow> string" where
  "seq_of e seed n = map (\<lambda>i. letters ! (env_rand e seed i mod length letters)) [0..<n]"

definition login_clock :: "string \<Rightarrow> world \<Rightarrow> nat" where
  "login_clock ov w = (if ov = ''ephemeral'' then Suc (clock_pos w) else clock_pos w)"

definition login_overlayDir :: "string \<Rightarrow> world \<Rightarrow> string" where
  "login_overlayDir ov w =
     (if ov = ''ephemeral''
      then Join [''/srv/overlays'',
                 ''guest-'' @ seq_of (env w) (wall_ns (env_clock (env w) (clock_pos w))) 6]
      else ov)"

definition login_seed :: "string \<Rightarrow> world \<Rightarrow> int" where
  "login_seed ov w = wall_ns (env_clock (env w) (login_clock ov w))"

definition login_sessionID :: "string \<Rightarrow> world \<Rightarrow> string" where
  "login_sessionID ov w = seq_of (env w) (login_seed ov w) 8"

definition login_port :: "string \<Rightarrow> world \<Rightarrow> int" where
  "login_port ov w = 10000 + int (env_rand (env w) (login_seed ov w) 8 mod 5000)"

definition login_session :: "string \<Rightarrow> string \<Rightarrow> world \<Rightarrow> Session" where
  "login_session username ov w =
     \<lparr>Username = username,
      ContainerName = ''desktop-'' @ username @ ''-'' @ login_sessionID ov w,
      OverlayDir = login_overlayDir ov w,
      Port = login_port ov w,
      LastActive = env_clock (env w) (Suc (login_clock ov w)),
      Ephemeral = (ov = ''ephemeral'')\<rparr>"

definition login_calls :: "string \<Rightarrow> string \<Rightarrow> world \<Rightarrow> cmd list" where
  "login_calls username ov w =
     (let d = login_overlayDir ov w;
          upper = Join [d, ''upper'']; work = Join [d, ''work'']; merged = Join [d, ''merged'']
      in [MkdirAll upper, MkdirAll work, MkdirAll merged,
          MountOverlay baseOverlay upper work merged,
          DockerRun (login_port ov w) (''desktop-'' @ username @ ''-'' @ login_sessionID ov w)
            merged])"

text \<open>The result of the \<open>k\<close>-th external call from now on.\<close>

definition upcoming :: "world \<Rightarrow> nat \<Rightarrow> err" where
  "upcoming w k = env_exec (env w) (length (trace w) + k)"

text \<open>
  The user name of a login request and the configuration file that \<open>login\<close> reads for
  it, when the form parses.
\<close>

definition form_user :: "request \<Rightarrow> string" where
  "form_user r = (case req_form r of None \<Rightarrow> [] | Some form \<Rightarrow> FormValue form ''username'')"

definition user_conf :: "request \<Rightarrow> world \<Rightarrow> conf_file option" where
  "user_conf r w =
     (case req_form r of
        None \<Rightarrow> None
      | Some form \<Rightarrow>
          Some (env_conf (env w) (Join [userConfDir, FormValue form ''username'' @ ''.conf''])))"

text \<open>
  \<open>accepted r w ov\<close>: the form parses, the configuration file loads, its password is the
  one of the form and its overlay setting is \<open>ov\<close>.
\<close>

definition accepted :: "request \<Rightarrow> world \<Rightarrow> string \<Rightarrow> bool" where
  "accepted r w ov =
     (case req_form r of
        None \<Rightarrow> False
      | Some form \<Rightarrow> user_conf r w = Some (Loaded (FormValue form ''password'') ov))"

subsection \<open>Runs of the gateway\<close>


definition initial :: "world \<Rightarrow> bool" where
  "initial w \<longleftrightarrow> sessions w = [] \<and> \<not> sessionsMu w \<and> clock_pos w = 0 \<and> trace w = []"



definition clock_monotone :: "world \<Rightarrow> bool" where
  "clock_monotone w \<longleftrightarrow>
     (\<forall>i j. i \<le> j \<longrightarrow> mono_ns (env_clock (env w) i) \<le> mono_ns (env_clock (env w) j))"


subsection \<open>A small installation\<close>

text \<open>
  Two users: \<^verbatim>\<open>bob\<close> with a persistent overlay and \<^verbatim>\<open>guest\<close> with an ephemeral one.
  The clock advances eleven minutes from one reading to the next; every external call
  succeeds; the generator is a function of the seed and the position, as any generator is.
\<close>

definition demo_env :: env where
  "demo_env =
     \<lparr>env_clock = (\<lambda>k. \<lparr>wall_ns = 660000000000 * int k, mono_ns = 660000000000 * int k\<rparr>),
      env_rand = (\<lambda>seed i. if i < 8 then nat ((seed div 660000000000) mod 4) + i else 8),
      env_exec = (\<lambda>k. None),
      env_conf = (\<lambda>p. if p = ''users/bob.conf'' then Loaded ''secret'' ''/srv/overlays/bob''
                       else if p = ''users/guest.conf'' then Loaded ''guest'' ''ephemeral''
                       else NotExist)\<rparr>"

definition demo_world :: world where
  "demo_world =
     \<lparr>sessions = [], sessionsMu = False, rand_seed = 1, rand_pos = 0, clock_pos = 0,
      trace = [], host = \<lparr>paths = {}, mounts = []\<rparr>, env = demo_env\<rparr>"

definition bob_login :: request where
  "bob_login = \<lparr>req_path = ''/login'',
                req_form = Some [(''username'', ''bob''), (''password'', ''secret'')]\<rparr>"

definition guest_login :: request where
  "guest_login = \<lparr>req_path = ''/login'',
                  req_form = Some [(''username'', ''guest''), (''password'', ''guest'')]\<rparr>"

definition get :: "string \<Rightarrow> request" where
  "get p = \<lparr>req_path = p, req_form = Some []\<rparr>"

text \<open>Bob logs in three times; in another run the guest logs in.\<close>

definition bob_once :: world where
  "bob_once = world_of (login bob_login demo_world)"

definition bob_twice :: world where
  "bob_twice = world_of (login bob_login bob_once)"


definition guest_in :: world where
  "guest_in = world_of (login guest_login demo_world)"

text \<open>The installation when the container runtime refuses to start containers.\<close>

definition no_docker_world :: world where
  "no_docker_world =
     demo_world\<lparr>env := demo_env\<lparr>env_exec := (\<lambda>k. if k = 4 then Some ''exit status 125'' else None)\<rparr>\<rparr>"

section \<open>Basic facts\<close>

lemma split_slash_nonempty: "split_slash s \<noteq> []"
  by (induction s) (auto split: list.splits)

lemma length_split_slash:
  "length (split_slash s) = Suc (length (filter (\<lambda>c. c = CHR ''/'') s))"
proof (induction s)
  case Nil
  show ?case by simp
next
  case (Cons c cs)
  with split_slash_nonempty [of cs] show ?case
    by (cases "split_slash cs") auto
qed

lemma one_segment_iff: "length (split_slash s) < 2 \<longleftrightarrow> CHR ''/'' \<notin> set s"
  by (auto simp add: length_split_slash filter_empty_conv)

lemma SplitN_no_slash: "CHR ''/'' \<notin> set s \<Longrightarrow> SplitN_slash_2 s = [s]"
  by (simp add: SplitN_slash_2_def)

lemma SplitN_at_slash:
  assumes "CHR ''/'' \<notin> set a"
  shows "SplitN_slash_2 (a @ ''/'' @ b) = [a, b]"
proof -
  from assms have ne: "\<And>c. c \<in> set a \<Longrightarrow> c \<noteq> CHR ''/''" by auto
  have t: "takeWhile (\<lambda>c. c \<noteq> CHR ''/'') (a @ CHR ''/'' # b) = a"
    using ne by (simp add: takeWhile_append2)
  have d: "dropWhile (\<lambda>c. c \<noteq> CHR ''/'') (a @ CHR ''/'' # b) = CHR ''/'' # b"
    using ne by (simp add: dropWhile_append2)
  show ?thesis by (simp add: SplitN_slash_2_def t d)
qed

lemma TrimPrefix_append: "TrimPrefix (p @ s) p = s"
  by (simp add: TrimPrefix_def)

lemma run_fst: "fst (run c w) = env_exec (env w) (length (trace w))"
  by (simp add: run_def Let_def)

lemma run_frame:
  "sessions (snd (run c w)) = sessions w"
  "sessionsMu (snd (run c w)) = sessionsMu w"
  "rand_seed (snd (run c w)) = rand_seed w"
  "rand_pos (snd (run c w)) = rand_pos w"
  "clock_pos (snd (run c w)) = clock_pos w"
  "env (snd (run c w)) = env w"
  "trace (snd (run c w)) = trace w @ [(c, env_exec (env w) (length (trace w)))]"
  by (simp_all add: run_def Let_def)

lemma run_host_ok:
  "env_exec (env w) (length (trace w)) = None \<Longrightarrow> host (snd (run c w)) = effect c (host w)"
  by (simp add: run_def Let_def)

lemma run_split:
  "run c w = (r, w1) \<Longrightarrow> r = env_exec (env w) (length (trace w)) \<and> w1 = snd (run c w)"
  by (auto simp add: run_def Let_def)

lemma touch_absent: "map_of (sessions w) sid = None \<Longrightarrow> touch sid w = (None, w)"
  by (simp add: touch_def)

lemma touch_live:
  "map_of (sessions w) sid = Some s \<Longrightarrow>
     touch sid w =
       (Some (s\<lparr>LastActive := env_clock (env w) (clock_pos w)\<rparr>),
        w\<lparr>sessions := AList.update sid (s\<lparr>LastActive := env_clock (env w) (clock_pos w)\<rparr>)
                         (sessions w),
          clock_pos := Suc (clock_pos w)\<rparr>)"
  by (simp add: touch_def Now_def Let_def)

section \<open>Stopping a session\<close>

lemma stopSession_absent:
  "\<not> sessionsMu w \<Longrightarrow> map_of (sessions w) sid = None \<Longrightarrow> stopSession sid w = Returned () w"
  by (simp add: stopSession_def Lock_def Unlock_def)

lemma stopSession_held: "sessionsMu w \<Longrightarrow> stopSession sid w = Blocked w"
  by (simp add: stopSession_def Lock_def)

lemma stopSession_live:
  assumes "\<not> sessionsMu w" and "map_of (sessions w) sid = Some s"
  shows "\<exists>w1. stopSession sid w = Returned () w1 \<and>
           sessions w1 = AList.delete sid (sessions w) \<and>
           \<not> sessionsMu w1 \<and> env w1 = env w \<and> clock_pos w1 = clock_pos w \<and>
           map fst (trace w1) = map fst (trace w) @
              [DockerRmForce (ContainerName s), UmountLazy (Join [OverlayDir s, ''merged''])] @
              (if Ephemeral s then [RemoveAll (OverlayDir s)] else []) \<and>
           paths (host w1) =
              (if Ephemeral s \<and> upcoming w 2 = None
               then {p \<in> paths (host w). \<not> under_root (OverlayDir s) p}
               else paths (host w))"
  using assms
  by (simp add: stopSession_def Lock_def Unlock_def run_def Let_def upcoming_def
      split: option.splits)

text \<open>
  C4: \<^verbatim>\<open>stopSession\<close> is idempotent. With the mutex free, the first call returns, and
  makes the teardown calls of the session once each if the id was live (removal of the
  container, lazy unmount, removal of the storage for a guest) and none otherwise; the
  second call returns and leaves the world as it found it; the id is in the table after
  neither call.
\<close>

theorem C4_stopSession_idempotent:
  assumes free: "\<not> sessionsMu w"
  shows "\<exists>w1. stopSession sid w = Returned () w1 \<and> stopSession sid w1 = Returned () w1 \<and>
           map_of (sessions w1) sid = None \<and>
           map fst (trace w1) = map fst (trace w) @
             (case map_of (sessions w) sid of
                None \<Rightarrow> []
              | Some s \<Rightarrow>
                  [DockerRmForce (ContainerName s), UmountLazy (Join [OverlayDir s, ''merged''])] @
                  (if Ephemeral s then [RemoveAll (OverlayDir s)] else []))"
proof (cases "map_of (sessions w) sid")
  case None
  with free have "stopSession sid w = Returned () w" by (rule stopSession_absent)
  with None show ?thesis by simp
next
  case (Some s)
  from stopSession_live [OF free Some] obtain w1 where
    r: "stopSession sid w = Returned () w1" and
    s1: "sessions w1 = AList.delete sid (sessions w)" and
    f1: "\<not> sessionsMu w1" and
    t1: "map fst (trace w1) = map fst (trace w) @
              [DockerRmForce (ContainerName s), UmountLazy (Join [OverlayDir s, ''merged''])] @
              (if Ephemeral s then [RemoveAll (OverlayDir s)] else [])"
    by blast
  from s1 have gone: "map_of (sessions w1) sid = None" by (simp add: delete_conv')
  from f1 gone have "stopSession sid w1 = Returned () w1" by (rule stopSession_absent)
  with r gone t1 Some show ?thesis by simp
qed

section \<open>Login, stage by stage\<close>

lemma draw_letters_eq:
  "draw_letters n w =
     (map (\<lambda>i. letters ! (env_rand (env w) (rand_seed w) (rand_pos w + i) mod length letters))
        [0..<n],
      w\<lparr>rand_pos := rand_pos w + n\<rparr>)"
proof (induction n arbitrary: w)
  case 0
  show ?case by simp
next
  case (Suc n)
  show ?case
    by (simp add: Suc.IH Intn_def map_upt_Suc del: upt_Suc)
qed

lemma randSeq_eq:
  "randSeq n w =
     (seq_of (env w) (wall_ns (env_clock (env w) (clock_pos w))) n,
      w\<lparr>clock_pos := Suc (clock_pos w),
        rand_seed := wall_ns (env_clock (env w) (clock_pos w)),
        rand_pos := n\<rparr>)"
  by (simp add: randSeq_def Now_def Seed_def draw_letters_eq seq_of_def)

lemma randomPort_eq:
  "randomPort w =
     (10000 + int (env_rand (env w) (rand_seed w) (rand_pos w) mod 5000),
      w\<lparr>rand_pos := Suc (rand_pos w)\<rparr>)"
  by (simp add: randomPort_def Intn_def)

lemma choose_overlay_eq:
  "choose_overlay ov w =
     (if ov = ''ephemeral''
      then ((Join [''/srv/overlays'',
                   ''guest-'' @ seq_of (env w) (wall_ns (env_clock (env w) (clock_pos w))) 6],
             True),
            w\<lparr>clock_pos := Suc (clock_pos w),
              rand_seed := wall_ns (env_clock (env w) (clock_pos w)), rand_pos := 6\<rparr>)
      else ((ov, False), w))"
  by (simp add: choose_overlay_def randSeq_eq)

lemma save_session_eq:
  "save_session sid un cn od port eph w =
     (if sessionsMu w then Blocked w
      else Returned (Redirect (''/session/'' @ sid) 302)
             (w\<lparr>sessions := AList.update sid
                    \<lparr>Username = un, ContainerName = cn, OverlayDir = od, Port = port,
                     LastActive = env_clock (env w) (clock_pos w), Ephemeral = eph\<rparr>
                    (sessions w),
                 clock_pos := Suc (clock_pos w)\<rparr>))"
  by (simp add: save_session_def Lock_def Unlock_def Now_def)

lemma upcoming_shift:
  "env w1 = env w \<Longrightarrow> length (trace w1) = length (trace w) + n \<Longrightarrow>
     upcoming w1 k = upcoming w (n + k)"
  by (simp add: upcoming_def add.assoc)

text \<open>
  The loop over the directories: it changes the calls made and the host only; it succeeds
  exactly when each of its calls does.
\<close>

lemma ensure_dirs_frame:
  "ensure_dirs ds w = (r, w2) \<Longrightarrow>
     sessions w2 = sessions w \<and> sessionsMu w2 = sessionsMu w \<and> env w2 = env w \<and>
     clock_pos w2 = clock_pos w \<and>
     (case r of
        None \<Rightarrow> trace w2 = trace w @ map (\<lambda>d. (MkdirAll d, None)) ds \<and>
                 mounts (host w2) = mounts (host w) \<and> paths (host w) \<subseteq> paths (host w2) \<and>
                 (\<forall>k<length ds. upcoming w k = None)
      | Some e \<Rightarrow> \<exists>k<length ds. upcoming w k \<noteq> None)"
proof (induction ds arbitrary: w)
  case Nil
  then show ?case by simp
next
  case (Cons d ds)
  obtain r1 w1 where rw: "run (MkdirAll d) w = (r1, w1)" by (cases "run (MkdirAll d) w")
  from run_split [OF rw] have w1: "w1 = snd (run (MkdirAll d) w)"
    and r1: "r1 = upcoming w 0" by (simp_all add: upcoming_def)
  have f1: "sessions w1 = sessions w" "sessionsMu w1 = sessionsMu w" "env w1 = env w"
    "clock_pos w1 = clock_pos w" "trace w1 = trace w @ [(MkdirAll d, r1)]"
    unfolding w1 r1 by (simp_all add: run_frame upcoming_def)
  show ?case
  proof (cases r1)
    case (Some e1)
    with Cons.prems rw have "r = Some e1" "w2 = w1" by simp_all
    with f1 Some r1 show ?thesis by auto
  next
    case None
    with Cons.prems rw have rest: "ensure_dirs ds w1 = (r, w2)" by simp
    from None r1 have ok: "env_exec (env w) (length (trace w)) = None"
      by (simp add: upcoming_def)
    have h1: "mounts (host w1) = mounts (host w)" "paths (host w) \<subseteq> paths (host w1)"
      unfolding w1 using ok by (auto simp add: run_host_ok)
    have sh: "\<And>k. upcoming w1 k = upcoming w (Suc k)"
      using f1 by (simp add: upcoming_def)
    note IH = Cons.IH [OF rest]
    show ?thesis
    proof (cases r)
      case None
      with IH f1 h1 \<open>r1 = None\<close> r1 sh
      have a: "trace w2 = trace w @ map (\<lambda>d. (MkdirAll d, None)) (d # ds)"
        and b: "mounts (host w2) = mounts (host w)" "paths (host w) \<subseteq> paths (host w2)"
        and c: "\<forall>k<length ds. upcoming w (Suc k) = None"
        and fr: "sessions w2 = sessions w" "sessionsMu w2 = sessionsMu w" "env w2 = env w"
          "clock_pos w2 = clock_pos w"
        by auto
      have "\<forall>k<length (d # ds). upcoming w k = None"
      proof (intro allI impI)
        fix k assume "k < length (d # ds)"
        with c \<open>r1 = None\<close> r1 show "upcoming w k = None" by (cases k) auto
      qed
      with a b fr None show ?thesis by simp
    next
      case (Some e)
      with IH sh obtain k where "k < length ds" "upcoming w (Suc k) \<noteq> None" by auto
      then have "\<exists>k<length (d # ds). upcoming w k \<noteq> None" by auto
      with IH f1 Some show ?thesis by simp
    qed
  qed
qed

text \<open>
  The five ways \<open>start_desktop\<close> can end, each with its cause in the results of the
  external calls and the state of the mutex, and with what it leaves behind.
\<close>

lemma start_desktop_cases [case_names dirs_fail mount_fail launch_fail blocked started]:
  obtains
    (dirs_fail) w' where
      "start_desktop un ov w = Returned (HttpError 500 ''Failed to create overlay dirs'') w'"
      "sessions w' = sessions w" "sessionsMu w' = sessionsMu w" "env w' = env w"
      "clock_pos w' = login_clock ov w" "\<exists>k<3. upcoming w k \<noteq> None"
  | (mount_fail) e w' where
      "start_desktop un ov w = Returned (HttpError 500 (''Failed to mount overlay: '' @ e)) w'"
      "sessions w' = sessions w" "sessionsMu w' = sessionsMu w" "env w' = env w"
      "clock_pos w' = login_clock ov w" "\<forall>k<3. upcoming w k = None" "upcoming w 3 = Some e"
  | (launch_fail) e w' where
      "start_desktop un ov w =
         Returned (HttpError 500 (''Failed to start container: '' @ e)) w'"
      "sessions w' = sessions w" "sessionsMu w' = sessionsMu w" "env w' = env w"
      "clock_pos w' = Suc (login_clock ov w)"
      "\<forall>k<4. upcoming w k = None" "upcoming w 4 = Some e"
      "trace w' = trace w @ map (\<lambda>c. (c, None)) (take 4 (login_calls un ov w)) @
         [(login_calls un ov w ! 4, Some e),
          (UmountLazy (Join [login_overlayDir ov w, ''merged'']), upcoming w 5)]"
      "upcoming w 5 = None \<Longrightarrow> mounts (host w') = mounts (host w)"
  | (blocked) w' where
      "start_desktop un ov w = Blocked w'" "sessionsMu w" "\<forall>k<5. upcoming w k = None"
  | (started) w' where
      "start_desktop un ov w =
         Returned (Redirect (''/session/'' @ login_sessionID ov w) 302) w'"
      "sessions w' = AList.update (login_sessionID ov w) (login_session un ov w) (sessions w)"
      "\<not> sessionsMu w" "\<not> sessionsMu w'" "env w' = env w"
      "clock_pos w' = login_clock ov w + 2"
      "trace w' = trace w @ map (\<lambda>c. (c, None)) (login_calls un ov w)"
      "mounts (host w') = Join [login_overlayDir ov w, ''merged''] # mounts (host w)"
      "paths (host w) \<subseteq> paths (host w')"
      "\<forall>k<5. upcoming w k = None"
proof -
  define d where "d = login_overlayDir ov w"
  define upper where "upper = Join [d, ''upper'']"
  define work where "work = Join [d, ''work'']"
  define merged where "merged = Join [d, ''merged'']"
  define sid where "sid = login_sessionID ov w"
  define port where "port = login_port ov w"
  define cn where "cn = ''desktop-'' @ un @ ''-'' @ sid"
  have calls: "login_calls un ov w =
      [MkdirAll upper, MkdirAll work, MkdirAll merged,
       MountOverlay baseOverlay upper work merged, DockerRun port cn merged]"
    by (simp add: login_calls_def Let_def upper_def work_def merged_def d_def port_def cn_def
        sid_def)
  have sess: "login_session un ov w =
      \<lparr>Username = un, ContainerName = cn, OverlayDir = d, Port = port,
       LastActive = env_clock (env w) (Suc (login_clock ov w)), Ephemeral = (ov = ''ephemeral'')\<rparr>"
    by (simp add: login_session_def cn_def sid_def d_def port_def)
  define w1 where "w1 = snd (choose_overlay ov w)"
  have co: "choose_overlay ov w = ((d, ov = ''ephemeral''), w1)"
    by (simp add: w1_def choose_overlay_eq d_def login_overlayDir_def)
  have f1: "sessions w1 = sessions w" "sessionsMu w1 = sessionsMu w" "env w1 = env w"
    "clock_pos w1 = login_clock ov w" "trace w1 = trace w" "host w1 = host w"
    by (simp_all add: w1_def choose_overlay_eq login_clock_def)
  have up1: "\<And>k. upcoming w1 k = upcoming w k"
    using f1 by (simp add: upcoming_def)
  obtain r2 w2 where ed: "ensure_dirs [upper, work, merged] w1 = (r2, w2)"
    by (cases "ensure_dirs [upper, work, merged] w1")
  note F2 = ensure_dirs_frame [OF ed]
  have f2: "sessions w2 = sessions w" "sessionsMu w2 = sessionsMu w" "env w2 = env w"
    "clock_pos w2 = login_clock ov w"
    using F2 f1 by simp_all
  show thesis
  proof (cases r2)
    case (Some e2)
    have res: "start_desktop un ov w =
        Returned (HttpError 500 ''Failed to create overlay dirs'') w2"
      using co ed Some
      by (simp add: start_desktop_def Let_def upper_def work_def merged_def)
    from F2 Some up1 have cause: "\<exists>k<3. upcoming w k \<noteq> None"
      by (simp add: numeral_3_eq_3)
    show thesis
      by (rule dirs_fail [of w2]) (use res f2 cause in simp_all)
  next
    case None
    from F2 None f1 up1 have t2: "trace w2 = trace w @ map (\<lambda>d. (MkdirAll d, None)) [upper, work, merged]"
      and h2: "mounts (host w2) = mounts (host w)" "paths (host w) \<subseteq> paths (host w2)"
      and ok3: "\<forall>k<3. upcoming w k = None"
      by (simp_all add: numeral_3_eq_3)
    have up2: "\<And>k. upcoming w2 k = upcoming w (3 + k)"
      using f2 t2 by (intro upcoming_shift) simp_all
    obtain r3 w3 where mo: "run (MountOverlay baseOverlay upper work merged) w2 = (r3, w3)"
      by (cases "run (MountOverlay baseOverlay upper work merged) w2")
    from run_split [OF mo] have w3: "w3 = snd (run (MountOverlay baseOverlay upper work merged) w2)"
      and r3: "r3 = upcoming w 3" using up2 [of 0] by (simp_all add: upcoming_def)
    have f3: "sessions w3 = sessions w" "sessionsMu w3 = sessionsMu w" "env w3 = env w"
      "clock_pos w3 = login_clock ov w"
      "trace w3 = trace w @ map (\<lambda>d. (MkdirAll d, None)) [upper, work, merged] @
                  [(MountOverlay baseOverlay upper work merged, r3)]"
      using f2 t2 r3 up2 [of 0] unfolding w3 by (simp_all add: run_frame upcoming_def)
    show thesis
    proof (cases r3)
      case (Some e3)
      have res: "start_desktop un ov w =
          Returned (HttpError 500 (''Failed to mount overlay: '' @ e3)) w3"
        using co ed mo \<open>r2 = None\<close> Some
        by (simp add: start_desktop_def Let_def upper_def work_def merged_def)
      from Some r3 have cause: "upcoming w 3 = Some e3" by simp
      show thesis
        by (rule mount_fail [of e3 w3]) (use res f3 ok3 cause in simp_all)
    next
      case None
      from None r3 have x3: "env_exec (env w2) (length (trace w2)) = None"
        using up2 [of 0] by (simp add: upcoming_def)
      have h3: "mounts (host w3) = merged # mounts (host w)" "paths (host w) \<subseteq> paths (host w3)"
        using h2 x3 unfolding w3 by (simp_all add: run_host_ok)
      have ok4: "\<forall>k<4. upcoming w k = None"
      proof (intro allI impI)
        fix k :: nat assume "k < 4"
        then have "k < 3 \<or> k = 3" by arith
        with ok3 None r3 show "upcoming w k = None" by auto
      qed
      define w5 where "w5 = w3\<lparr>clock_pos := Suc (clock_pos w3),
        rand_seed := wall_ns (env_clock (env w3) (clock_pos w3)), rand_pos := Suc 8\<rparr>"
      have rs: "randSeq 8 w3 = (sid, w3\<lparr>clock_pos := Suc (clock_pos w3),
          rand_seed := wall_ns (env_clock (env w3) (clock_pos w3)), rand_pos := 8\<rparr>)"
        using f3 by (simp add: randSeq_eq sid_def login_sessionID_def login_seed_def)
      have rp: "randomPort (snd (randSeq 8 w3)) = (port, w5)"
        using f3 by (simp add: rs randomPort_eq port_def login_port_def login_seed_def w5_def)
      have f5: "sessions w5 = sessions w" "sessionsMu w5 = sessionsMu w" "env w5 = env w"
        "clock_pos w5 = Suc (login_clock ov w)" "trace w5 = trace w3" "host w5 = host w3"
        using f3 by (simp_all add: w5_def)
      have up5: "\<And>k. upcoming w5 k = upcoming w (4 + k)"
        using f5 f3 by (intro upcoming_shift) simp_all
      obtain r6 w6 where dr: "run (DockerRun port cn merged) w5 = (r6, w6)"
        by (cases "run (DockerRun port cn merged) w5")
      from run_split [OF dr] have w6: "w6 = snd (run (DockerRun port cn merged) w5)"
        and r6: "r6 = upcoming w 4" using up5 [of 0] by (simp_all add: upcoming_def)
      have f6: "sessions w6 = sessions w" "sessionsMu w6 = sessionsMu w" "env w6 = env w"
        "clock_pos w6 = Suc (login_clock ov w)"
        "trace w6 = trace w @ map (\<lambda>d. (MkdirAll d, None)) [upper, work, merged] @
                  [(MountOverlay baseOverlay upper work merged, None),
                   (DockerRun port cn merged, r6)]"
        using f5 f3 \<open>r3 = None\<close> r6 up5 [of 0] unfolding w6
        by (simp_all add: run_frame upcoming_def)
      have up6: "\<And>k. upcoming w6 k = upcoming w (5 + k)"
        using f6 by (intro upcoming_shift) simp_all
      show thesis
      proof (cases r6)
        case (Some e6)
        define w7 where "w7 = snd (run (UmountLazy merged) w6)"
        have res: "start_desktop un ov w =
            Returned (HttpError 500 (''Failed to start container: '' @ e6)) w7"
          using co ed mo rs rp dr \<open>r2 = None\<close> \<open>r3 = None\<close> Some
          by (simp add: start_desktop_def Let_def upper_def work_def merged_def cn_def w7_def)
        have h6: "host w6 = host w3"
          using Some r6 up5 [of 0] f5 unfolding w6 by (simp add: run_def Let_def upcoming_def)
        have f7: "sessions w7 = sessions w" "sessionsMu w7 = sessionsMu w" "env w7 = env w"
          "clock_pos w7 = Suc (login_clock ov w)"
          using f6 unfolding w7_def by (simp_all add: run_frame)
        have t7: "trace w7 = trace w @ map (\<lambda>c. (c, None)) (take 4 (login_calls un ov w)) @
           [(login_calls un ov w ! 4, Some e6),
            (UmountLazy (Join [login_overlayDir ov w, ''merged'']), upcoming w 5)]"
          using f6 Some up6 [of 0] unfolding w7_def calls
          by (simp add: run_frame upcoming_def merged_def d_def)
        have m7: "mounts (host w7) = mounts (host w)" if "upcoming w 5 = None"
        proof -
          from that up6 [of 0] have "env_exec (env w6) (length (trace w6)) = None"
            by (simp add: upcoming_def)
          then show ?thesis
            unfolding w7_def using h6 h3 by (simp add: run_host_ok)
        qed
        from Some r6 have cause: "upcoming w 4 = Some e6" by simp
        show thesis
          by (rule launch_fail [of e6 w7]) (use res f7 ok4 t7 m7 cause in simp_all)
      next
        case None
        have ok5: "\<forall>k<5. upcoming w k = None"
        proof (intro allI impI)
          fix k :: nat assume "k < 5"
          then have "k < 4 \<or> k = 4" by arith
          with ok4 None r6 show "upcoming w k = None" by auto
        qed
        from None r6 have x6: "env_exec (env w5) (length (trace w5)) = None"
          using up5 [of 0] by (simp add: upcoming_def)
        have h6: "mounts (host w6) = merged # mounts (host w)" "paths (host w) \<subseteq> paths (host w6)"
          using h3 f5 x6 unfolding w6 by (simp_all add: run_host_ok)
        have sv: "start_desktop un ov w =
            save_session sid un cn d port (ov = ''ephemeral'') w6"
          using co ed mo rs rp dr \<open>r2 = None\<close> \<open>r3 = None\<close> None
          by (simp add: start_desktop_def Let_def upper_def work_def merged_def cn_def)
        show thesis
        proof (cases "sessionsMu w")
          case True
          with sv f6 have "start_desktop un ov w = Blocked w6" by (simp add: save_session_eq)
          then show thesis
            by (rule blocked [of w6]) (use True ok5 in simp_all)
        next
          case False
          define w' where "w' = w6\<lparr>sessions := AList.update sid
                    \<lparr>Username = un, ContainerName = cn, OverlayDir = d, Port = port,
                     LastActive = env_clock (env w6) (clock_pos w6),
                     Ephemeral = (ov = ''ephemeral'')\<rparr> (sessions w6),
                 clock_pos := Suc (clock_pos w6)\<rparr>"
          from sv False f6 have res: "start_desktop un ov w =
              Returned (Redirect (''/session/'' @ login_sessionID ov w) 302) w'"
            by (simp add: save_session_eq w'_def sid_def)
          have a: "sessions w' =
              AList.update (login_sessionID ov w) (login_session un ov w) (sessions w)"
            using f6 unfolding w'_def sess by (simp add: sid_def)
          have b: "\<not> sessionsMu w'" "env w' = env w" "clock_pos w' = login_clock ov w + 2"
            using f6 False unfolding w'_def by simp_all
          have c: "trace w' = trace w @ map (\<lambda>c. (c, None)) (login_calls un ov w)"
            using f6 None unfolding w'_def calls by simp
          have e: "mounts (host w') = Join [login_overlayDir ov w, ''merged''] # mounts (host w)"
            "paths (host w) \<subseteq> paths (host w')"
            using h6 unfolding w'_def by (simp_all add: merged_def d_def)
          show thesis
            by (rule started [of w']) (use res a False b c e ok5 in simp_all)
        qed
      qed
    qed
  qed
qed

section \<open>Login as a whole\<close>

lemma login_accepted: "accepted r w ov \<Longrightarrow> login r w = start_desktop (form_user r) ov w"
  by (auto simp add: accepted_def user_conf_def login_def form_user_def Let_def
      split: option.splits)

lemma login_rejected:
  assumes "\<And>ov. \<not> accepted r w ov"
  shows "\<exists>n m. login r w = Returned (HttpError n m) w"
proof (cases "req_form r")
  case None
  then show ?thesis by (simp add: login_def)
next
  case (Some form)
  show ?thesis
  proof (cases "env_conf (env w) (Join [userConfDir, FormValue form ''username'' @ ''.conf''])")
    case NotExist
    with Some show ?thesis by (simp add: login_def Let_def)
  next
    case LoadError
    with Some show ?thesis by (simp add: login_def Let_def)
  next
    case (Loaded pw ov)
    with Some assms [of ov] have "pw \<noteq> FormValue form ''password''"
      by (auto simp add: accepted_def user_conf_def)
    with Some Loaded show ?thesis by (simp add: login_def Let_def)
  qed
qed

lemma login_redirect_accepted:
  assumes "login r w = Returned (Redirect u c) w'"
  shows "\<exists>ov. accepted r w ov"
proof (rule ccontr)
  assume "\<not> (\<exists>ov. accepted r w ov)"
  then have "\<And>ov. \<not> accepted r w ov" by blast
  from login_rejected [OF this] assms show False by auto
qed

text \<open>What a login that redirects has done.\<close>

lemma login_redirect:
  assumes ok: "login r w = Returned (Redirect u c) w'" and acc: "accepted r w ov"
  shows "u = ''/session/'' @ login_sessionID ov w" "c = 302"
    "sessions w' =
       AList.update (login_sessionID ov w) (login_session (form_user r) ov w) (sessions w)"
    "\<not> sessionsMu w" "\<not> sessionsMu w'" "env w' = env w"
    "clock_pos w' = login_clock ov w + 2"
    "trace w' = trace w @ map (\<lambda>c. (c, None)) (login_calls (form_user r) ov w)"
    "mounts (host w') = Join [login_overlayDir ov w, ''merged''] # mounts (host w)"
    "paths (host w) \<subseteq> paths (host w')"
    "\<forall>k<5. upcoming w k = None"
proof -
  from ok acc have sd: "start_desktop (form_user r) ov w = Returned (Redirect u c) w'"
    by (simp add: login_accepted)
  have "u = ''/session/'' @ login_sessionID ov w \<and> c = 302 \<and>
    sessions w' =
       AList.update (login_sessionID ov w) (login_session (form_user r) ov w) (sessions w) \<and>
    \<not> sessionsMu w \<and> \<not> sessionsMu w' \<and> env w' = env w \<and>
    clock_pos w' = login_clock ov w + 2 \<and>
    trace w' = trace w @ map (\<lambda>c. (c, None)) (login_calls (form_user r) ov w) \<and>
    mounts (host w') = Join [login_overlayDir ov w, ''merged''] # mounts (host w) \<and>
    paths (host w) \<subseteq> paths (host w') \<and>
    (\<forall>k<5. upcoming w k = None)"
    by (cases rule: start_desktop_cases [of "form_user r" ov w]) (use sd in simp_all)
  then show "u = ''/session/'' @ login_sessionID ov w" "c = 302"
    "sessions w' =
       AList.update (login_sessionID ov w) (login_session (form_user r) ov w) (sessions w)"
    "\<not> sessionsMu w" "\<not> sessionsMu w'" "env w' = env w"
    "clock_pos w' = login_clock ov w + 2"
    "trace w' = trace w @ map (\<lambda>c. (c, None)) (login_calls (form_user r) ov w)"
    "mounts (host w') = Join [login_overlayDir ov w, ''merged''] # mounts (host w)"
    "paths (host w) \<subseteq> paths (host w')"
    "\<forall>k<5. upcoming w k = None"
    by blast+
qed

text \<open>When a login redirects.\<close>

lemma login_succeeds:
  assumes acc: "accepted r w ov" and free: "\<not> sessionsMu w"
    and ok: "\<forall>k<5. upcoming w k = None"
  shows "\<exists>w'. login r w = Returned (Redirect (''/session/'' @ login_sessionID ov w) 302) w'"
proof (cases rule: start_desktop_cases [of "form_user r" ov w])
  case (dirs_fail w')
  then obtain k where "k < 3" "upcoming w k \<noteq> None" by blast
  with ok show ?thesis by auto
next
  case (mount_fail e w')
  with ok show ?thesis by auto
next
  case (launch_fail e w')
  with ok show ?thesis by auto
next
  case (blocked w')
  with free show ?thesis by simp
next
  case (started w')
  with acc show ?thesis by (auto simp add: login_accepted)
qed

lemma login_sessions_irrelevant:
  "accepted r (w\<lparr>sessions := ss\<rparr>) ov = accepted r w ov"
  "upcoming (w\<lparr>sessions := ss\<rparr>) k = upcoming w k"
  "login_sessionID ov (w\<lparr>sessions := ss\<rparr>) = login_sessionID ov w"
  "login_session un ov (w\<lparr>sessions := ss\<rparr>) = login_session un ov w"
  by (simp_all add: accepted_def user_conf_def upcoming_def login_sessionID_def
      login_session_def login_seed_def login_clock_def login_port_def login_overlayDir_def
      split: option.splits)



lemma login_port_range: "10000 \<le> login_port ov w \<and> login_port ov w < 15000"
proof -
  have "env_rand (env w) (login_seed ov w) 8 mod 5000 < 5000" by simp
  then show ?thesis unfolding login_port_def by linarith
qed

section \<open>Identifiers and ports\<close>

text \<open>
  The id and the port of a login are functions of the seed that \<^verbatim>\<open>randSeq(8)\<close> takes
  from the clock: with one generator, two logins seeded alike draw the same id and the
  same port.
\<close>

lemma same_seed_same_draws:
  assumes "env_rand (env w1) = env_rand (env w2)" and "login_seed ov1 w1 = login_seed ov2 w2"
  shows "login_sessionID ov1 w1 = login_sessionID ov2 w2 \<and> login_port ov1 w1 = login_port ov2 w2"
  using assms by (simp add: login_sessionID_def login_port_def seq_of_def)

text \<open>
  C1, as amended: the port registered by a login that succeeds is 10000 plus a draw below
  5000, so it lies in 10000..14999, and it is drawn without consulting the table: with
  any other table in place of the current one the same login registers the same session
  id with the same session, port included. (That it differs from the ports of the live
  sessions does not hold, as the run of three logins below shows.)
\<close>

theorem C1_port_drawn_without_registry:
  assumes ok: "login r w = Returned (Redirect u c) w'"
  shows "\<exists>sid s. u = ''/session/'' @ sid \<and> map_of (sessions w') sid = Some s \<and>
           10000 \<le> Port s \<and> Port s < 15000 \<and>
           (\<forall>ss. \<exists>w''. login r (w\<lparr>sessions := ss\<rparr>) = Returned (Redirect u c) w'' \<and>
                   map_of (sessions w'') sid = Some s)"
proof -
  from login_redirect_accepted [OF ok] obtain ov where acc: "accepted r w ov" ..
  note L = login_redirect [OF ok acc]
  let ?sid = "login_sessionID ov w" and ?s = "login_session (form_user r) ov w"
  have here: "map_of (sessions w') ?sid = Some ?s"
    using L(3) by (simp add: update_conv')
  have port: "10000 \<le> Port ?s \<and> Port ?s < 15000"
    using login_port_range [of ov w] by (simp add: login_session_def)
  have other: "\<exists>w''. login r (w\<lparr>sessions := ss\<rparr>) = Returned (Redirect u c) w'' \<and>
                   map_of (sessions w'') ?sid = Some ?s" for ss
  proof -
    let ?v = "w\<lparr>sessions := ss\<rparr>"
    have acc': "accepted r ?v ov" using acc by (simp add: login_sessions_irrelevant)
    have free': "\<not> sessionsMu ?v" using L(4) by simp
    have ok': "\<forall>k<5. upcoming ?v k = None" using L(11) by (simp add: login_sessions_irrelevant)
    from login_succeeds [OF acc' free' ok'] obtain w'' where
      r: "login r ?v = Returned (Redirect (''/session/'' @ login_sessionID ov ?v) 302) w''"
      by blast
    from login_redirect(3) [OF r acc']
    have "map_of (sessions w'') ?sid = Some ?s"
      by (simp add: update_conv' login_sessions_irrelevant)
    with r L(1,2) show ?thesis by (simp add: login_sessions_irrelevant)
  qed
  from L(1) here port other show ?thesis by blast
qed


section \<open>Rollback\<close>

text \<open>
  C3: when the credentials are accepted, the three directories are made and the overlay is
  mounted, and then \<^verbatim>\<open>docker run\<close> fails with error \<open>e\<close>, login answers 500
  ``Failed to start container'', its last external call is the lazy unmount of the
  merged mount point it had mounted (which, when it succeeds, leaves the mount table as
  it was before the login), and the table of sessions is unchanged.
\<close>

theorem C3_launch_failure_rolls_back:
  assumes acc: "accepted r w ov"
    and ok4: "\<forall>k<4. upcoming w k = None" and bad: "upcoming w 4 = Some e"
  shows "\<exists>w' port name.
           login r w = Returned (HttpError 500 (''Failed to start container: '' @ e)) w' \<and>
           sessions w' = sessions w \<and>
           trace w' = trace w @
             [(MkdirAll (Join [login_overlayDir ov w, ''upper'']), None),
              (MkdirAll (Join [login_overlayDir ov w, ''work'']), None),
              (MkdirAll (Join [login_overlayDir ov w, ''merged'']), None),
              (MountOverlay baseOverlay (Join [login_overlayDir ov w, ''upper''])
                 (Join [login_overlayDir ov w, ''work''])
                 (Join [login_overlayDir ov w, ''merged'']), None),
              (DockerRun port name (Join [login_overlayDir ov w, ''merged'']), Some e),
              (UmountLazy (Join [login_overlayDir ov w, ''merged'']), upcoming w 5)] \<and>
           (upcoming w 5 = None \<longrightarrow> mounts (host w') = mounts (host w))"
proof (cases rule: start_desktop_cases [of "form_user r" ov w])
  case (dirs_fail w')
  then obtain k where "k < 3" "upcoming w k \<noteq> None" by blast
  with ok4 show ?thesis by auto
next
  case (mount_fail e' w')
  with ok4 show ?thesis by auto
next
  case (launch_fail e' w')
  from launch_fail(7) bad have e': "e' = e" by simp
  have res: "login r w = Returned (HttpError 500 (''Failed to start container: '' @ e)) w'"
    using launch_fail(1) acc e' by (simp add: login_accepted)
  have tr: "trace w' = trace w @
             [(MkdirAll (Join [login_overlayDir ov w, ''upper'']), None),
              (MkdirAll (Join [login_overlayDir ov w, ''work'']), None),
              (MkdirAll (Join [login_overlayDir ov w, ''merged'']), None),
              (MountOverlay baseOverlay (Join [login_overlayDir ov w, ''upper''])
                 (Join [login_overlayDir ov w, ''work''])
                 (Join [login_overlayDir ov w, ''merged'']), None),
              (DockerRun (login_port ov w)
                 (''desktop-'' @ form_user r @ ''-'' @ login_sessionID ov w)
                 (Join [login_overlayDir ov w, ''merged'']), Some e),
              (UmountLazy (Join [login_overlayDir ov w, ''merged'']), upcoming w 5)]"
    using launch_fail(8) e' by (simp add: login_calls_def Let_def)
  show ?thesis
    by (rule exI [of _ w'], rule exI [of _ "login_port ov w"],
        rule exI [of _ "''desktop-'' @ form_user r @ ''-'' @ login_sessionID ov w"])
      (use res tr launch_fail(2,9) in simp)
next
  case (blocked w')
  with bad show ?thesis by auto
next
  case (started w')
  with bad show ?thesis by auto
qed

section \<open>Persistent overlays\<close>

text \<open>
  C9: two logins that succeed against configurations with the same overlay setting, other
  than \<^verbatim>\<open>ephemeral\<close>, register sessions with that setting as their
  \<^verbatim>\<open>OverlayDir\<close>; both containers are started on the one merged mount point below it,
  and stopping either session lazily unmounts that mount point.
\<close>

theorem C9_persistent_logins_share_overlay:
  assumes ok1: "login r1 w1 = Returned (Redirect u1 c1) w1'"
    and ok2: "login r2 w2 = Returned (Redirect u2 c2) w2'"
    and acc1: "accepted r1 w1 ov" and acc2: "accepted r2 w2 ov"
    and pers: "ov \<noteq> ''ephemeral''"
  shows "\<exists>sid1 s1 sid2 s2.
           u1 = ''/session/'' @ sid1 \<and> map_of (sessions w1') sid1 = Some s1 \<and>
           u2 = ''/session/'' @ sid2 \<and> map_of (sessions w2') sid2 = Some s2 \<and>
           OverlayDir s1 = ov \<and> OverlayDir s2 = ov \<and> \<not> Ephemeral s1 \<and> \<not> Ephemeral s2 \<and>
           last (trace w1') =
             (DockerRun (Port s1) (ContainerName s1) (Join [ov, ''merged'']), None) \<and>
           last (trace w2') =
             (DockerRun (Port s2) (ContainerName s2) (Join [ov, ''merged'']), None) \<and>
           (MountOverlay baseOverlay (Join [ov, ''upper'']) (Join [ov, ''work''])
              (Join [ov, ''merged'']), None) \<in> set (trace w1') \<inter> set (trace w2') \<and>
           (\<forall>w sid s. \<not> sessionsMu w \<and> map_of (sessions w) sid = Some s \<and> (s = s1 \<or> s = s2) \<longrightarrow>
              (\<exists>w'. stopSession sid w = Returned () w' \<and>
                 map fst (trace w') = map fst (trace w) @
                   [DockerRmForce (ContainerName s), UmountLazy (Join [ov, ''merged''])]))"
proof -
  note L1 = login_redirect [OF ok1 acc1] and L2 = login_redirect [OF ok2 acc2]
  let ?sid1 = "login_sessionID ov w1" and ?s1 = "login_session (form_user r1) ov w1"
  let ?sid2 = "login_sessionID ov w2" and ?s2 = "login_session (form_user r2) ov w2"
  have h1: "map_of (sessions w1') ?sid1 = Some ?s1" using L1(3) by (simp add: update_conv')
  have h2: "map_of (sessions w2') ?sid2 = Some ?s2" using L2(3) by (simp add: update_conv')
  have o: "OverlayDir ?s1 = ov" "OverlayDir ?s2 = ov" "\<not> Ephemeral ?s1" "\<not> Ephemeral ?s2"
    using pers by (simp_all add: login_session_def login_overlayDir_def)
  have t1: "last (trace w1') =
      (DockerRun (Port ?s1) (ContainerName ?s1) (Join [ov, ''merged'']), None)"
    using L1(8) pers
    by (simp add: login_calls_def Let_def login_session_def login_overlayDir_def)
  have t2: "last (trace w2') =
      (DockerRun (Port ?s2) (ContainerName ?s2) (Join [ov, ''merged'']), None)"
    using L2(8) pers
    by (simp add: login_calls_def Let_def login_session_def login_overlayDir_def)
  have m: "(MountOverlay baseOverlay (Join [ov, ''upper'']) (Join [ov, ''work''])
              (Join [ov, ''merged'']), None) \<in> set (trace w1') \<inter> set (trace w2')"
    using L1(8) L2(8) pers by (simp add: login_calls_def Let_def login_overlayDir_def)
  have stop: "\<exists>w'. stopSession sid w = Returned () w' \<and>
                 map fst (trace w') = map fst (trace w) @
                   [DockerRmForce (ContainerName s), UmountLazy (Join [ov, ''merged''])]"
    if "\<not> sessionsMu w \<and> map_of (sessions w) sid = Some s \<and> (s = ?s1 \<or> s = ?s2)" for w sid s
  proof -
    from that o have s: "OverlayDir s = ov" "\<not> Ephemeral s" by auto
    from that stopSession_live [of w sid s] s show ?thesis by auto
  qed
  from L1(1) L2(1) h1 h2 o t1 t2 m stop show ?thesis by blast
qed

section \<open>The small installation at work\<close>

lemma demo_paths:
  "Join [userConfDir, ''bob.conf''] = ''users/bob.conf''"
  "Join [userConfDir, ''guest.conf''] = ''users/guest.conf''"
  "Join [''/srv/overlays/bob'', ''merged''] = ''/srv/overlays/bob/merged''"
  "Join [''/srv/overlays/bob'', ''upper''] = ''/srv/overlays/bob/upper''"
  "Join [''/srv/overlays/bob'', ''work''] = ''/srv/overlays/bob/work''"
  by code_simp+

lemma demo_seq:
  "seq_of demo_env 0 8 = ''abcdefgh''"
  "seq_of demo_env 1320000000000 8 = ''cdefghij''"
  "seq_of demo_env 2640000000000 8 = ''abcdefgh''"
  by code_simp+

lemma demo_upcoming: "env w = demo_env \<Longrightarrow> upcoming w k = None"
  by (simp add: upcoming_def demo_env_def)

lemma bob_accepted:
  "env_conf (env w) = env_conf demo_env \<Longrightarrow> accepted bob_login w ''/srv/overlays/bob''"
  by (simp add: accepted_def user_conf_def bob_login_def FormValue_def demo_paths demo_env_def)

lemma bob_form_user: "form_user bob_login = ''bob''"
  by (simp add: form_user_def bob_login_def FormValue_def)

lemma demo_id:
  "env w = demo_env \<Longrightarrow>
     login_sessionID ''/srv/overlays/bob'' w = seq_of demo_env (660000000000 * int (clock_pos w)) 8"
  by (simp add: login_sessionID_def login_seed_def login_clock_def demo_env_def)

lemma demo_session:
  "env w = demo_env \<Longrightarrow>
     login_session ''bob'' ''/srv/overlays/bob'' w =
       \<lparr>Username = ''bob'',
        ContainerName = ''desktop-bob-'' @ login_sessionID ''/srv/overlays/bob'' w,
        OverlayDir = ''/srv/overlays/bob'', Port = 10008,
        LastActive = \<lparr>wall_ns = 660000000000 * int (Suc (clock_pos w)),
                       mono_ns = 660000000000 * int (Suc (clock_pos w))\<rparr>,
        Ephemeral = False\<rparr>"
  by (simp add: login_session_def login_overlayDir_def login_port_def login_seed_def
      login_clock_def demo_env_def)

text \<open>Bob's login in a world of the installation with the mutex free.\<close>

lemma bob_login_in_demo:
  assumes e: "env w = demo_env" and free: "\<not> sessionsMu w"
  shows "login bob_login w =
           Returned (Redirect (''/session/'' @ login_sessionID ''/srv/overlays/bob'' w) 302)
             (world_of (login bob_login w))"
    and "sessions (world_of (login bob_login w)) =
           AList.update (login_sessionID ''/srv/overlays/bob'' w)
             (login_session ''bob'' ''/srv/overlays/bob'' w) (sessions w)"
    and "\<not> sessionsMu (world_of (login bob_login w))"
    and "env (world_of (login bob_login w)) = demo_env"
    and "clock_pos (world_of (login bob_login w)) = clock_pos w + 2"
proof -
  have acc: "accepted bob_login w ''/srv/overlays/bob''" using e by (simp add: bob_accepted)
  have ok: "\<forall>k<5. upcoming w k = None" using e by (simp add: demo_upcoming)
  from login_succeeds [OF acc free ok] obtain w' where
    r: "login bob_login w =
          Returned (Redirect (''/session/'' @ login_sessionID ''/srv/overlays/bob'' w) 302) w'"
    by blast
  then have w': "world_of (login bob_login w) = w'" by simp
  note L = login_redirect [OF r acc]
  show "login bob_login w =
           Returned (Redirect (''/session/'' @ login_sessionID ''/srv/overlays/bob'' w) 302)
             (world_of (login bob_login w))"
    unfolding w' by (rule r)
  show "sessions (world_of (login bob_login w)) =
           AList.update (login_sessionID ''/srv/overlays/bob'' w)
             (login_session ''bob'' ''/srv/overlays/bob'' w) (sessions w)"
    unfolding w' using L(3) by (simp add: bob_form_user)
  show "\<not> sessionsMu (world_of (login bob_login w))" unfolding w' by (rule L(5))
  show "env (world_of (login bob_login w)) = demo_env" unfolding w' using L(6) e by simp
  show "clock_pos (world_of (login bob_login w)) = clock_pos w + 2"
    unfolding w' using L(7) by (simp add: login_clock_def)
qed

lemma demo_world_facts:
  "env demo_world = demo_env" "\<not> sessionsMu demo_world" "clock_pos demo_world = 0"
  "sessions demo_world = []" "trace demo_world = []" "initial demo_world"
  by (simp_all add: demo_world_def initial_def)

lemma bob_once_facts:
  "login bob_login demo_world = Returned (Redirect ''/session/abcdefgh'' 302) bob_once"
  "sessions bob_once =
     [(''abcdefgh'',
       \<lparr>Username = ''bob'', ContainerName = ''desktop-bob-abcdefgh'',
        OverlayDir = ''/srv/overlays/bob'', Port = 10008,
        LastActive = \<lparr>wall_ns = 660000000000, mono_ns = 660000000000\<rparr>,
        Ephemeral = False\<rparr>)]"
  "\<not> sessionsMu bob_once" "env bob_once = demo_env" "clock_pos bob_once = 2"
  using bob_login_in_demo [of demo_world]
  by (simp_all add: demo_world_facts demo_id demo_session demo_seq bob_once_def)

lemma bob_twice_facts:
  "login bob_login bob_once = Returned (Redirect ''/session/cdefghij'' 302) bob_twice"
  "sessions bob_twice =
     [(''abcdefgh'',
       \<lparr>Username = ''bob'', ContainerName = ''desktop-bob-abcdefgh'',
        OverlayDir = ''/srv/overlays/bob'', Port = 10008,
        LastActive = \<lparr>wall_ns = 660000000000, mono_ns = 660000000000\<rparr>,
        Ephemeral = False\<rparr>),
      (''cdefghij'',
       \<lparr>Username = ''bob'', ContainerName = ''desktop-bob-cdefghij'',
        OverlayDir = ''/srv/overlays/bob'', Port = 10008,
        LastActive = \<lparr>wall_ns = 1980000000000, mono_ns = 1980000000000\<rparr>,
        Ephemeral = False\<rparr>)]"
  "\<not> sessionsMu bob_twice" "env bob_twice = demo_env" "clock_pos bob_twice = 4"
  using bob_login_in_demo [of bob_once]
  by (simp_all add: bob_once_facts demo_id demo_session demo_seq bob_twice_def)


section \<open>Storage at teardown\<close>

text \<open>
  C5: stopping a live session, with the mutex free. For a guest session the calls are the
  removal of the container, the lazy unmount and \<^verbatim>\<open>os.RemoveAll\<close> of the session's
  overlay directory, after which (the removal having succeeded) no path at or below that
  directory exists. For a persistent session the calls are the removal of the container
  and the lazy unmount only, every path of the host is still there, and the next login
  accepted with the same overlay setting mounts the same upper and work directories again,
  over a host that still has all those paths.
\<close>

theorem C5_teardown_storage:
  assumes free: "\<not> sessionsMu w" and live: "map_of (sessions w) sid = Some s"
  shows "\<exists>w1. stopSession sid w = Returned () w1 \<and>
           (if Ephemeral s
            then map fst (trace w1) = map fst (trace w) @
                   [DockerRmForce (ContainerName s), UmountLazy (Join [OverlayDir s, ''merged'']),
                    RemoveAll (OverlayDir s)] \<and>
                 (upcoming w 2 = None \<longrightarrow>
                    (\<forall>p\<in>paths (host w1). \<not> under_root (OverlayDir s) p))
            else map fst (trace w1) = map fst (trace w) @
                   [DockerRmForce (ContainerName s), UmountLazy (Join [OverlayDir s, ''merged''])] \<and>
                 paths (host w1) = paths (host w) \<and>
                 (\<forall>r u c w2. login r w1 = Returned (Redirect u c) w2 \<and>
                      accepted r w1 (OverlayDir s) \<and> OverlayDir s \<noteq> ''ephemeral'' \<longrightarrow>
                    (MountOverlay baseOverlay (Join [OverlayDir s, ''upper''])
                       (Join [OverlayDir s, ''work'']) (Join [OverlayDir s, ''merged'']), None)
                      \<in> set (trace w2) \<and>
                    paths (host w) \<subseteq> paths (host w2)))"
proof -
  from stopSession_live [OF free live] obtain w1 where
    r: "stopSession sid w = Returned () w1" and
    t: "map fst (trace w1) = map fst (trace w) @
              [DockerRmForce (ContainerName s), UmountLazy (Join [OverlayDir s, ''merged''])] @
              (if Ephemeral s then [RemoveAll (OverlayDir s)] else [])" and
    p: "paths (host w1) =
              (if Ephemeral s \<and> upcoming w 2 = None
               then {p \<in> paths (host w). \<not> under_root (OverlayDir s) p}
               else paths (host w))"
    by blast
  show ?thesis
  proof (cases "Ephemeral s")
    case True
    with r t p show ?thesis by auto
  next
    case False
    have again: "(MountOverlay baseOverlay (Join [OverlayDir s, ''upper''])
                       (Join [OverlayDir s, ''work'']) (Join [OverlayDir s, ''merged'']), None)
                      \<in> set (trace w2) \<and>
                    paths (host w) \<subseteq> paths (host w2)"
      if h: "login r' w1 = Returned (Redirect u c) w2 \<and>
                      accepted r' w1 (OverlayDir s) \<and> OverlayDir s \<noteq> ''ephemeral''"
      for r' u c w2
    proof -
      from h have ok: "login r' w1 = Returned (Redirect u c) w2"
        and acc: "accepted r' w1 (OverlayDir s)" and pers: "OverlayDir s \<noteq> ''ephemeral''"
        by simp_all
      note L = login_redirect [OF ok acc]
      from L(8) pers have "(MountOverlay baseOverlay (Join [OverlayDir s, ''upper''])
                       (Join [OverlayDir s, ''work'']) (Join [OverlayDir s, ''merged'']), None)
                      \<in> set (trace w2)"
        by (simp add: login_calls_def Let_def login_overlayDir_def)
      moreover from L(10) p False have "paths (host w) \<subseteq> paths (host w2)" by simp
      ultimately show ?thesis by simp
    qed
    from False t have t': "map fst (trace w1) = map fst (trace w) @
        [DockerRmForce (ContainerName s), UmountLazy (Join [OverlayDir s, ''merged''])]"
      by simp
    from False p have p': "paths (host w1) = paths (host w)" by simp
    from again have again': "\<forall>r u c w2. login r w1 = Returned (Redirect u c) w2 \<and>
                      accepted r w1 (OverlayDir s) \<and> OverlayDir s \<noteq> ''ephemeral'' \<longrightarrow>
                    (MountOverlay baseOverlay (Join [OverlayDir s, ''upper''])
                       (Join [OverlayDir s, ''work'']) (Join [OverlayDir s, ''merged'']), None)
                      \<in> set (trace w2) \<and>
                    paths (host w) \<subseteq> paths (host w2)"
      by blast
    from r t' p' again' have "stopSession sid w = Returned () w1 \<and>
        (map fst (trace w1) = map fst (trace w) @
                   [DockerRmForce (ContainerName s), UmountLazy (Join [OverlayDir s, ''merged''])] \<and>
                 paths (host w1) = paths (host w) \<and>
                 (\<forall>r u c w2. login r w1 = Returned (Redirect u c) w2 \<and>
                      accepted r w1 (OverlayDir s) \<and> OverlayDir s \<noteq> ''ephemeral'' \<longrightarrow>
                    (MountOverlay baseOverlay (Join [OverlayDir s, ''upper''])
                       (Join [OverlayDir s, ''work'']) (Join [OverlayDir s, ''merged'']), None)
                      \<in> set (trace w2) \<and>
                    paths (host w) \<subseteq> paths (host w2)))"
      by (intro conjI)
    then have "\<exists>w1. stopSession sid w = Returned () w1 \<and>
        (map fst (trace w1) = map fst (trace w) @
                   [DockerRmForce (ContainerName s), UmountLazy (Join [OverlayDir s, ''merged''])] \<and>
                 paths (host w1) = paths (host w) \<and>
                 (\<forall>r u c w2. login r w1 = Returned (Redirect u c) w2 \<and>
                      accepted r w1 (OverlayDir s) \<and> OverlayDir s \<noteq> ''ephemeral'' \<longrightarrow>
                    (MountOverlay baseOverlay (Join [OverlayDir s, ''upper''])
                       (Join [OverlayDir s, ''work'']) (Join [OverlayDir s, ''merged'']), None)
                      \<in> set (trace w2) \<and>
                    paths (host w) \<subseteq> paths (host w2)))"
      by (rule exI [of _ w1])
    moreover from False have "Ephemeral s = False" by simp
    ultimately show ?thesis by (simp only: if_False)
  qed
qed

section \<open>The proxy\<close>

text \<open>
  C10: a proxy request whose path, after the prefix \<^verbatim>\<open>/proxy/\<close>, has fewer than two
  segments between slashes is answered 400 ``Bad proxy path'', whatever the state of the
  mutex, and the world is left exactly as it was: no lookup, no timestamp, no forwarding.
\<close>

theorem C10_bad_proxy_path:
  assumes "length (split_slash (TrimPrefix (req_path r) ''/proxy/'')) < 2"
  shows "proxyHandler r w = Returned (HttpError 400 ''Bad proxy path'') w"
proof -
  from assms have "CHR ''/'' \<notin> set (TrimPrefix (req_path r) ''/proxy/'')"
    by (simp add: one_segment_iff)
  then have "SplitN_slash_2 (TrimPrefix (req_path r) ''/proxy/'') =
      [TrimPrefix (req_path r) ''/proxy/'']"
    by (rule SplitN_no_slash)
  then show ?thesis by (simp add: proxyHandler_def)
qed

text \<open>
  C7: a proxy request for \<^verbatim>\<open>/proxy/\<close>\<open>sid\<close>\<^verbatim>\<open>/\<close>\<open>rest\<close>, with the mutex free. When
  \<open>sid\<close> is not in the table the answer is 404 ``Session not found'' and the world is left
  as it was; when it is, the request is handed to the reverse proxy for 127.0.0.1 on the
  port of the session, with path \<^verbatim>\<open>/\<close>\<open>rest\<close>.
\<close>

theorem C7_proxy_routing:
  assumes free: "\<not> sessionsMu w"
    and path: "req_path r = ''/proxy/'' @ sid @ ''/'' @ rest"
    and sid: "CHR ''/'' \<notin> set sid"
  shows "case map_of (sessions w) sid of
           None \<Rightarrow> proxyHandler r w = Returned (HttpError 404 ''Session not found'') w
         | Some s \<Rightarrow>
             (\<exists>w'. proxyHandler r w = Returned (Forward ''127.0.0.1'' (Port s) (''/'' @ rest)) w')"
proof -
  have parts: "SplitN_slash_2 (TrimPrefix (req_path r) ''/proxy/'') = [sid, rest]"
    unfolding path TrimPrefix_append using sid by (rule SplitN_at_slash)
  show ?thesis
  proof (cases "map_of (sessions w) sid")
    case None
    then have "touch sid (w\<lparr>sessionsMu := True\<rparr>) = (None, w\<lparr>sessionsMu := True\<rparr>)"
      by (simp add: touch_absent)
    with free parts None show ?thesis
      by (simp add: proxyHandler_def Lock_def Unlock_def)
  next
    case (Some s)
    then have "fst (touch sid (w\<lparr>sessionsMu := True\<rparr>)) =
        Some (s\<lparr>LastActive := env_clock (env w) (clock_pos w)\<rparr>)"
      by (simp add: touch_live)
    with free parts Some show ?thesis
      by (simp add: proxyHandler_def Lock_def split_def)
  qed
qed

section \<open>Timestamps along a run\<close>










text \<open>The scan of the reaper, which runs with the mutex held.\<close>

lemma Since_eq:
  "Since u w =
     (mono_ns (env_clock (env w) (clock_pos w)) - mono_ns u, w\<lparr>clock_pos := Suc (clock_pos w)\<rparr>)"
  by (simp add: Since_def Now_def Sub_def)

lemma scan_held:
  "sessionsMu w \<Longrightarrow>
     sessions (world_of (scan_sessions ids w)) = sessions w \<and>
     env (world_of (scan_sessions ids w)) = env w \<and>
     clock_pos w \<le> clock_pos (world_of (scan_sessions ids w)) \<and>
     sessionsMu (world_of (scan_sessions ids w)) \<and>
     trace (world_of (scan_sessions ids w)) = trace w \<and>
     host (world_of (scan_sessions ids w)) = host w"
proof (induction ids arbitrary: w)
  case Nil
  then show ?case by simp
next
  case (Cons sid ids)
  show ?case
  proof (cases "map_of (sessions w) sid")
    case None
    with Cons.IH [OF Cons.prems] show ?thesis by simp
  next
    case (Some s)
    let ?w1 = "w\<lparr>clock_pos := Suc (clock_pos w)\<rparr>"
    from Cons.prems have held: "sessionsMu ?w1" by simp
    show ?thesis
    proof (cases "sessionExpiry < mono_ns (env_clock (env w) (clock_pos w)) - mono_ns (LastActive s)")
      case True
      with Some held Cons.prems show ?thesis
        by (simp add: Since_eq stopSession_held)
    next
      case False
      with Some Cons.IH [OF held] show ?thesis
        by (simp add: Since_eq)
    qed
  qed
qed

lemma scan_blocks_on_idle:
  assumes "sessionsMu w" and "clock_monotone w" and "sid \<in> set ids"
    and "map_of (sessions w) sid = Some s"
    and "sessionExpiry < mono_ns (env_clock (env w) (clock_pos w)) - mono_ns (LastActive s)"
  shows "result_of (scan_sessions ids w) = None"
  using assms
proof (induction ids arbitrary: w)
  case Nil
  then show ?case by simp
next
  case (Cons sid0 ids)
  show ?case
  proof (cases "map_of (sessions w) sid0")
    case None
    with Cons.prems have "sid \<in> set ids" by auto
    from Cons.IH [OF Cons.prems(1,2) this Cons.prems(4,5)] None show ?thesis by simp
  next
    case (Some s0)
    let ?w1 = "w\<lparr>clock_pos := Suc (clock_pos w)\<rparr>"
    from Cons.prems have held: "sessionsMu ?w1" by simp
    show ?thesis
    proof (cases "sessionExpiry < mono_ns (env_clock (env w) (clock_pos w)) - mono_ns (LastActive s0)")
      case True
      with Some held show ?thesis by (simp add: Since_eq stopSession_held)
    next
      case False
      with Some Cons.prems(4,5) have "sid \<noteq> sid0" by auto
      with Cons.prems(3) have mem: "sid \<in> set ids" by simp
      from Cons.prems(2) have mono1: "clock_monotone ?w1" by (simp add: clock_monotone_def)
      from Cons.prems(2) have "mono_ns (env_clock (env w) (clock_pos w))
          \<le> mono_ns (env_clock (env w) (Suc (clock_pos w)))"
        by (simp add: clock_monotone_def)
      with Cons.prems(5) have idle1: "sessionExpiry <
          mono_ns (env_clock (env ?w1) (clock_pos ?w1)) - mono_ns (LastActive s)"
        by simp
      from Cons.prems(4) have live1: "map_of (sessions ?w1) sid = Some s" by simp
      from Cons.IH [OF held mono1 mem live1 idle1] Some False show ?thesis
        by (simp add: Since_eq)
    qed
  qed
qed


lemma cleanup_round_blocks_on_idle:
  assumes free: "\<not> sessionsMu w" and mono: "clock_monotone w"
    and live: "map_of (sessions w) sid = Some s"
    and idle: "sessionExpiry < mono_ns (env_clock (env w) (clock_pos w)) - mono_ns (LastActive s)"
  shows "result_of (cleanup_round w) = None \<and>
         map_of (sessions (world_of (cleanup_round w))) sid = Some s \<and>
         sessionsMu (world_of (cleanup_round w)) \<and>
         trace (world_of (cleanup_round w)) = trace w"
proof -
  let ?v = "w\<lparr>sessionsMu := True\<rparr>"
  from live have mem: "sid \<in> set (map fst (sessions ?v))"
    by (auto dest: map_of_SomeD intro: rev_image_eqI)
  have "result_of (scan_sessions (map fst (sessions ?v)) ?v) = None"
    by (rule scan_blocks_on_idle [where sid = sid and s = s])
      (use mono live idle mem in \<open>simp_all add: clock_monotone_def\<close>)
  then obtain b where b: "scan_sessions (map fst (sessions w)) ?v = Blocked b"
    by (cases "scan_sessions (map fst (sessions w)) ?v") simp_all
  from scan_held [of ?v "map fst (sessions w)"] b
  have "sessions b = sessions w" "sessionsMu b" "trace b = trace w" by simp_all
  with free b live show ?thesis
    by (simp add: cleanup_round_def Lock_def)
qed






section \<open>The properties on the small installation\<close>

lemma bob_session_once:
  "map_of (sessions bob_once) ''abcdefgh'' =
     Some \<lparr>Username = ''bob'', ContainerName = ''desktop-bob-abcdefgh'',
           OverlayDir = ''/srv/overlays/bob'', Port = 10008,
           LastActive = \<lparr>wall_ns = 660000000000, mono_ns = 660000000000\<rparr>,
           Ephemeral = False\<rparr>"
  by (simp add: bob_once_facts)

lemma demo_clock_monotone: "env w = demo_env \<Longrightarrow> clock_monotone w"
  by (simp add: clock_monotone_def demo_env_def)


theorem C1_witness:
  "login bob_login demo_world = Returned (Redirect ''/session/abcdefgh'' 302) bob_once \<and>
   (\<exists>sid s. ''/session/abcdefgh'' = ''/session/'' @ sid \<and>
      map_of (sessions bob_once) sid = Some s \<and> 10000 \<le> Port s \<and> Port s < 15000 \<and>
      (\<forall>ss. \<exists>w''. login bob_login (demo_world\<lparr>sessions := ss\<rparr>) =
                      Returned (Redirect ''/session/abcdefgh'' 302) w'' \<and>
                    map_of (sessions w'') sid = Some s))"
proof -
  have h: "login bob_login demo_world = Returned (Redirect ''/session/abcdefgh'' 302) bob_once"
    by (rule bob_once_facts)
  from h C1_port_drawn_without_registry [OF h] show ?thesis by (rule conjI)
qed

text \<open>
  C1 as stated fails: Bob's second login succeeds while the session of his first login
  is live on port 10008, and it is given port 10008 as well; afterwards two live sessions
  have the same port.
\<close>

theorem C1_port_collision:
  "login bob_login bob_once = Returned (Redirect ''/session/cdefghij'' 302) bob_twice \<and>
   map_option Port (map_of (sessions bob_once) ''abcdefgh'') = Some 10008 \<and>
   map_option Port (map_of (sessions bob_twice) ''cdefghij'') = Some 10008 \<and>
   map_option Port (map_of (sessions bob_twice) ''abcdefgh'') = Some 10008"
  by (simp add: bob_twice_facts bob_once_facts)



lemma no_docker_facts:
  "accepted bob_login no_docker_world ''/srv/overlays/bob''"
  "\<forall>k<4. upcoming no_docker_world k = None"
  "upcoming no_docker_world 4 = Some ''exit status 125''"
  "upcoming no_docker_world 5 = None"
  "sessions no_docker_world = []" "trace no_docker_world = []"
  "mounts (host no_docker_world) = []"
  "login_overlayDir ''/srv/overlays/bob'' no_docker_world = ''/srv/overlays/bob''"
  by (simp_all add: bob_accepted no_docker_world_def demo_world_def demo_env_def upcoming_def
      login_overlayDir_def)

theorem C3_witness:
  "accepted bob_login no_docker_world ''/srv/overlays/bob'' \<and>
   upcoming no_docker_world 0 = None \<and> upcoming no_docker_world 1 = None \<and>
   upcoming no_docker_world 2 = None \<and> upcoming no_docker_world 3 = None \<and>
   upcoming no_docker_world 4 = Some ''exit status 125'' \<and>
   (\<exists>w' port name.
      login bob_login no_docker_world =
        Returned (HttpError 500 ''Failed to start container: exit status 125'') w' \<and>
      sessions w' = [] \<and>
      trace w' =
        [(MkdirAll ''/srv/overlays/bob/upper'', None),
         (MkdirAll ''/srv/overlays/bob/work'', None),
         (MkdirAll ''/srv/overlays/bob/merged'', None),
         (MountOverlay ''/srv/overlays/base'' ''/srv/overlays/bob/upper''
            ''/srv/overlays/bob/work'' ''/srv/overlays/bob/merged'', None),
         (DockerRun port name ''/srv/overlays/bob/merged'', Some ''exit status 125''),
         (UmountLazy ''/srv/overlays/bob/merged'', None)] \<and>
      mounts (host w') = [])"
proof -
  note F = no_docker_facts
  from C3_launch_failure_rolls_back [OF F(1) F(2) F(3)]
  have "\<exists>w' port name.
      login bob_login no_docker_world =
        Returned (HttpError 500 ''Failed to start container: exit status 125'') w' \<and>
      sessions w' = [] \<and>
      trace w' =
        [(MkdirAll ''/srv/overlays/bob/upper'', None),
         (MkdirAll ''/srv/overlays/bob/work'', None),
         (MkdirAll ''/srv/overlays/bob/merged'', None),
         (MountOverlay ''/srv/overlays/base'' ''/srv/overlays/bob/upper''
            ''/srv/overlays/bob/work'' ''/srv/overlays/bob/merged'', None),
         (DockerRun port name ''/srv/overlays/bob/merged'', Some ''exit status 125''),
         (UmountLazy ''/srv/overlays/bob/merged'', None)] \<and>
      mounts (host w') = []"
    by (simp add: F demo_paths baseOverlay_def)
  with F(1,2,3) show ?thesis by simp
qed

theorem C4_witness:
  "\<not> sessionsMu bob_once \<and>
   (\<exists>w1. stopSession ''abcdefgh'' bob_once = Returned () w1 \<and>
      stopSession ''abcdefgh'' w1 = Returned () w1 \<and>
      map_of (sessions w1) ''abcdefgh'' = None \<and>
      map fst (trace w1) = map fst (trace bob_once) @
        [DockerRmForce ''desktop-bob-abcdefgh'', UmountLazy ''/srv/overlays/bob/merged''])"
proof -
  have free: "\<not> sessionsMu bob_once" by (rule bob_once_facts)
  from C4_stopSession_idempotent [OF free, of "''abcdefgh''"]
  have "\<exists>w1. stopSession ''abcdefgh'' bob_once = Returned () w1 \<and>
      stopSession ''abcdefgh'' w1 = Returned () w1 \<and>
      map_of (sessions w1) ''abcdefgh'' = None \<and>
      map fst (trace w1) = map fst (trace bob_once) @
        [DockerRmForce ''desktop-bob-abcdefgh'', UmountLazy ''/srv/overlays/bob/merged'']"
    by (simp add: bob_session_once demo_paths)
  with free show ?thesis by (rule conjI)
qed

theorem C9_witness:
  "login bob_login demo_world = Returned (Redirect ''/session/abcdefgh'' 302) bob_once \<and>
   login bob_login bob_once = Returned (Redirect ''/session/cdefghij'' 302) bob_twice \<and>
   accepted bob_login demo_world ''/srv/overlays/bob'' \<and>
   accepted bob_login bob_once ''/srv/overlays/bob'' \<and>
   ''/srv/overlays/bob'' \<noteq> ''ephemeral'' \<and>
   (\<exists>sid1 s1 sid2 s2.
      ''/session/abcdefgh'' = ''/session/'' @ sid1 \<and> map_of (sessions bob_once) sid1 = Some s1 \<and>
      ''/session/cdefghij'' = ''/session/'' @ sid2 \<and> map_of (sessions bob_twice) sid2 = Some s2 \<and>
      OverlayDir s1 = ''/srv/overlays/bob'' \<and> OverlayDir s2 = ''/srv/overlays/bob'' \<and>
      \<not> Ephemeral s1 \<and> \<not> Ephemeral s2 \<and>
      last (trace bob_once) =
        (DockerRun (Port s1) (ContainerName s1) ''/srv/overlays/bob/merged'', None) \<and>
      last (trace bob_twice) =
        (DockerRun (Port s2) (ContainerName s2) ''/srv/overlays/bob/merged'', None) \<and>
      (MountOverlay ''/srv/overlays/base'' ''/srv/overlays/bob/upper''
         ''/srv/overlays/bob/work'' ''/srv/overlays/bob/merged'', None)
        \<in> set (trace bob_once) \<inter> set (trace bob_twice))"
proof -
  have h1: "login bob_login demo_world = Returned (Redirect ''/session/abcdefgh'' 302) bob_once"
    by (rule bob_once_facts)
  have h2: "login bob_login bob_once = Returned (Redirect ''/session/cdefghij'' 302) bob_twice"
    by (rule bob_twice_facts)
  have a1: "accepted bob_login demo_world ''/srv/overlays/bob''"
    by (simp add: bob_accepted demo_world_facts)
  have a2: "accepted bob_login bob_once ''/srv/overlays/bob''"
    by (simp add: bob_accepted bob_once_facts)
  have p: "''/srv/overlays/bob'' \<noteq> ''ephemeral''" by simp
  from C9_persistent_logins_share_overlay [OF h1 h2 a1 a2 p]
  have "\<exists>sid1 s1 sid2 s2.
      ''/session/abcdefgh'' = ''/session/'' @ sid1 \<and> map_of (sessions bob_once) sid1 = Some s1 \<and>
      ''/session/cdefghij'' = ''/session/'' @ sid2 \<and> map_of (sessions bob_twice) sid2 = Some s2 \<and>
      OverlayDir s1 = ''/srv/overlays/bob'' \<and> OverlayDir s2 = ''/srv/overlays/bob'' \<and>
      \<not> Ephemeral s1 \<and> \<not> Ephemeral s2 \<and>
      last (trace bob_once) =
        (DockerRun (Port s1) (ContainerName s1) ''/srv/overlays/bob/merged'', None) \<and>
      last (trace bob_twice) =
        (DockerRun (Port s2) (ContainerName s2) ''/srv/overlays/bob/merged'', None) \<and>
      (MountOverlay ''/srv/overlays/base'' ''/srv/overlays/bob/upper''
         ''/srv/overlays/bob/work'' ''/srv/overlays/bob/merged'', None)
        \<in> set (trace bob_once) \<inter> set (trace bob_twice)"
    unfolding demo_paths baseOverlay_def by blast
  with h1 h2 a1 a2 p show ?thesis by (intro conjI)
qed

lemma guest_facts:
  "accepted guest_login demo_world ''ephemeral''"
  "form_user guest_login = ''guest''"
  "login_sessionID ''ephemeral'' demo_world = ''bcdefghi''"
  "login_overlayDir ''ephemeral'' demo_world = ''/srv/overlays/guest-abcdef''"
  "login_port ''ephemeral'' demo_world = 10008"
proof -
  show "accepted guest_login demo_world ''ephemeral''"
    by (simp add: accepted_def user_conf_def guest_login_def FormValue_def demo_paths
        demo_env_def demo_world_def)
  show "form_user guest_login = ''guest''"
    by (simp add: form_user_def guest_login_def FormValue_def)
  have "seq_of demo_env 660000000000 8 = ''bcdefghi''" by code_simp
  then show "login_sessionID ''ephemeral'' demo_world = ''bcdefghi''"
    by (simp add: login_sessionID_def login_seed_def login_clock_def demo_world_def demo_env_def)
  have "Join [''/srv/overlays'', ''guest-'' @ seq_of demo_env 0 6] = ''/srv/overlays/guest-abcdef''"
    by code_simp
  then show "login_overlayDir ''ephemeral'' demo_world = ''/srv/overlays/guest-abcdef''"
    by (simp add: login_overlayDir_def demo_world_def demo_env_def)
  show "login_port ''ephemeral'' demo_world = 10008"
    by (simp add: login_port_def login_seed_def login_clock_def demo_world_def demo_env_def)
qed

lemma guest_in_facts:
  "login guest_login demo_world = Returned (Redirect ''/session/bcdefghi'' 302) guest_in"
  "map_of (sessions guest_in) ''bcdefghi'' =
     Some \<lparr>Username = ''guest'', ContainerName = ''desktop-guest-bcdefghi'',
           OverlayDir = ''/srv/overlays/guest-abcdef'', Port = 10008,
           LastActive = \<lparr>wall_ns = 1320000000000, mono_ns = 1320000000000\<rparr>,
           Ephemeral = True\<rparr>"
  "\<not> sessionsMu guest_in" "env guest_in = demo_env"
proof -
  have ok: "\<forall>k<5. upcoming demo_world k = None"
    by (simp add: demo_upcoming demo_world_facts)
  from login_succeeds [OF guest_facts(1) demo_world_facts(2) ok] obtain w' where
    r: "login guest_login demo_world = Returned (Redirect ''/session/bcdefghi'' 302) w'"
    by (auto simp add: guest_facts)
  then have w': "guest_in = w'" by (simp add: guest_in_def)
  note L = login_redirect [OF r guest_facts(1)]
  have la: "env_clock (env demo_world) (Suc (login_clock ''ephemeral'' demo_world)) =
      \<lparr>wall_ns = 1320000000000, mono_ns = 1320000000000\<rparr>"
    by (simp add: login_clock_def demo_world_def demo_env_def)
  show "login guest_login demo_world = Returned (Redirect ''/session/bcdefghi'' 302) guest_in"
    unfolding w' by (rule r)
  show "map_of (sessions guest_in) ''bcdefghi'' =
     Some \<lparr>Username = ''guest'', ContainerName = ''desktop-guest-bcdefghi'',
           OverlayDir = ''/srv/overlays/guest-abcdef'', Port = 10008,
           LastActive = \<lparr>wall_ns = 1320000000000, mono_ns = 1320000000000\<rparr>,
           Ephemeral = True\<rparr>"
    unfolding w' using L(3) by (simp add: update_conv' guest_facts login_session_def la)
  show "\<not> sessionsMu guest_in" unfolding w' by (rule L(5))
  show "env guest_in = demo_env" unfolding w' using L(6) by (simp add: demo_world_facts)
qed

theorem C5_witness:
  "\<not> sessionsMu guest_in \<and>
   map_option Ephemeral (map_of (sessions guest_in) ''bcdefghi'') = Some True \<and>
   upcoming guest_in 2 = None \<and>
   (\<exists>w1. stopSession ''bcdefghi'' guest_in = Returned () w1 \<and>
      map fst (trace w1) = map fst (trace guest_in) @
        [DockerRmForce ''desktop-guest-bcdefghi'',
         UmountLazy ''/srv/overlays/guest-abcdef/merged'',
         RemoveAll ''/srv/overlays/guest-abcdef''] \<and>
      ''/srv/overlays/guest-abcdef'' \<notin> paths (host w1) \<and>
      ''/srv/overlays/guest-abcdef/upper'' \<notin> paths (host w1)) \<and>
   \<not> sessionsMu bob_once \<and>
   map_option Ephemeral (map_of (sessions bob_once) ''abcdefgh'') = Some False \<and>
   (\<exists>w1 w2. stopSession ''abcdefgh'' bob_once = Returned () w1 \<and>
      map fst (trace w1) = map fst (trace bob_once) @
        [DockerRmForce ''desktop-bob-abcdefgh'', UmountLazy ''/srv/overlays/bob/merged''] \<and>
      paths (host w1) = paths (host bob_once) \<and>
      login bob_login w1 = Returned (Redirect ''/session/cdefghij'' 302) w2 \<and>
      accepted bob_login w1 ''/srv/overlays/bob'' \<and>
      (MountOverlay ''/srv/overlays/base'' ''/srv/overlays/bob/upper''
         ''/srv/overlays/bob/work'' ''/srv/overlays/bob/merged'', None) \<in> set (trace w2) \<and>
      paths (host bob_once) \<subseteq> paths (host w2))"
proof -
  have j: "Join [''/srv/overlays/guest-abcdef'', ''merged''] = ''/srv/overlays/guest-abcdef/merged''"
    by code_simp
  have u: "under_root ''/srv/overlays/guest-abcdef'' ''/srv/overlays/guest-abcdef''"
    "under_root ''/srv/overlays/guest-abcdef'' ''/srv/overlays/guest-abcdef/upper''"
    by code_simp+
  have up: "upcoming guest_in 2 = None" by (simp add: demo_upcoming guest_in_facts)
  from C5_teardown_storage [OF guest_in_facts(3) guest_in_facts(2)] up
  obtain g1 where g: "stopSession ''bcdefghi'' guest_in = Returned () g1"
    "map fst (trace g1) = map fst (trace guest_in) @
        [DockerRmForce ''desktop-guest-bcdefghi'',
         UmountLazy ''/srv/overlays/guest-abcdef/merged'',
         RemoveAll ''/srv/overlays/guest-abcdef'']"
    "\<forall>p\<in>paths (host g1). \<not> under_root ''/srv/overlays/guest-abcdef'' p"
    by (auto simp add: j)
  from g(3) u have gone: "''/srv/overlays/guest-abcdef'' \<notin> paths (host g1)"
    "''/srv/overlays/guest-abcdef/upper'' \<notin> paths (host g1)"
    by blast+
  have guest: "\<exists>w1. stopSession ''bcdefghi'' guest_in = Returned () w1 \<and>
      map fst (trace w1) = map fst (trace guest_in) @
        [DockerRmForce ''desktop-guest-bcdefghi'',
         UmountLazy ''/srv/overlays/guest-abcdef/merged'',
         RemoveAll ''/srv/overlays/guest-abcdef''] \<and>
      ''/srv/overlays/guest-abcdef'' \<notin> paths (host w1) \<and>
      ''/srv/overlays/guest-abcdef/upper'' \<notin> paths (host w1)"
    using g(1,2) gone by blast
  from C5_teardown_storage [OF bob_once_facts(3) bob_session_once]
  obtain b1 where b: "stopSession ''abcdefgh'' bob_once = Returned () b1"
    "map fst (trace b1) = map fst (trace bob_once) @
        [DockerRmForce ''desktop-bob-abcdefgh'', UmountLazy ''/srv/overlays/bob/merged'']"
    "paths (host b1) = paths (host bob_once)"
    "\<forall>r u c w2. login r b1 = Returned (Redirect u c) w2 \<and>
        accepted r b1 ''/srv/overlays/bob'' \<longrightarrow>
        (MountOverlay ''/srv/overlays/base'' ''/srv/overlays/bob/upper''
           ''/srv/overlays/bob/work'' ''/srv/overlays/bob/merged'', None) \<in> set (trace w2) \<and>
        paths (host bob_once) \<subseteq> paths (host w2)"
    by (auto simp add: demo_paths baseOverlay_def)
  from stopSession_live [OF bob_once_facts(3) bob_session_once] b(1)
  have b1: "\<not> sessionsMu b1" "env b1 = demo_env" "clock_pos b1 = 2"
    by (auto simp add: bob_once_facts)
  have acc: "accepted bob_login b1 ''/srv/overlays/bob''" using b1 by (simp add: bob_accepted)
  have lg: "login bob_login b1 =
      Returned (Redirect ''/session/cdefghij'' 302) (world_of (login bob_login b1))"
    using bob_login_in_demo(1) [OF b1(2) b1(1)] b1 by (simp add: demo_id demo_seq)
  from b(4) lg acc
  have again: "(MountOverlay ''/srv/overlays/base'' ''/srv/overlays/bob/upper''
           ''/srv/overlays/bob/work'' ''/srv/overlays/bob/merged'', None)
           \<in> set (trace (world_of (login bob_login b1))) \<and>
        paths (host bob_once) \<subseteq> paths (host (world_of (login bob_login b1)))"
    by blast
  have bob: "\<exists>w1 w2. stopSession ''abcdefgh'' bob_once = Returned () w1 \<and>
      map fst (trace w1) = map fst (trace bob_once) @
        [DockerRmForce ''desktop-bob-abcdefgh'', UmountLazy ''/srv/overlays/bob/merged''] \<and>
      paths (host w1) = paths (host bob_once) \<and>
      login bob_login w1 = Returned (Redirect ''/session/cdefghij'' 302) w2 \<and>
      accepted bob_login w1 ''/srv/overlays/bob'' \<and>
      (MountOverlay ''/srv/overlays/base'' ''/srv/overlays/bob/upper''
         ''/srv/overlays/bob/work'' ''/srv/overlays/bob/merged'', None) \<in> set (trace w2) \<and>
      paths (host bob_once) \<subseteq> paths (host w2)"
    by (rule exI [of _ b1], rule exI [of _ "world_of (login bob_login b1)"])
      (use b(1,2,3) lg acc again in simp)
  have e1: "map_option Ephemeral (map_of (sessions guest_in) ''bcdefghi'') = Some True"
    by (simp add: guest_in_facts)
  have e2: "map_option Ephemeral (map_of (sessions bob_once) ''abcdefgh'') = Some False"
    by (simp add: bob_session_once)
  from guest_in_facts(3) e1 up guest bob_once_facts(3) e2 bob show ?thesis by (intro conjI)
qed

theorem C10_witness:
  "length (split_slash (TrimPrefix (req_path (get ''/proxy/abcdefgh'')) ''/proxy/'')) < 2 \<and>
   proxyHandler (get ''/proxy/abcdefgh'') bob_once =
     Returned (HttpError 400 ''Bad proxy path'') bob_once"
proof -
  have h: "length (split_slash (TrimPrefix (req_path (get ''/proxy/abcdefgh'')) ''/proxy/'')) < 2"
    by (simp add: get_def TrimPrefix_def)
  from h C10_bad_proxy_path [OF h] show ?thesis by (rule conjI)
qed

theorem C7_witness:
  "\<not> sessionsMu bob_once \<and>
   req_path (get ''/proxy/abcdefgh/vnc.html'') = ''/proxy/'' @ ''abcdefgh'' @ ''/'' @ ''vnc.html'' \<and>
   req_path (get ''/proxy/zzzzzzzz/vnc.html'') = ''/proxy/'' @ ''zzzzzzzz'' @ ''/'' @ ''vnc.html'' \<and>
   CHR ''/'' \<notin> set ''abcdefgh'' \<and> CHR ''/'' \<notin> set ''zzzzzzzz'' \<and>
   proxyHandler (get ''/proxy/zzzzzzzz/vnc.html'') bob_once =
     Returned (HttpError 404 ''Session not found'') bob_once \<and>
   (\<exists>w'. proxyHandler (get ''/proxy/abcdefgh/vnc.html'') bob_once =
      Returned (Forward ''127.0.0.1'' 10008 ''/vnc.html'') w')"
proof -
  have free: "\<not> sessionsMu bob_once" by (rule bob_once_facts)
  have p1: "req_path (get ''/proxy/abcdefgh/vnc.html'') =
      ''/proxy/'' @ ''abcdefgh'' @ ''/'' @ ''vnc.html''"
    by (simp add: get_def)
  have p2: "req_path (get ''/proxy/zzzzzzzz/vnc.html'') =
      ''/proxy/'' @ ''zzzzzzzz'' @ ''/'' @ ''vnc.html''"
    by (simp add: get_def)
  have s1: "CHR ''/'' \<notin> set ''abcdefgh''" by simp
  have s2: "CHR ''/'' \<notin> set ''zzzzzzzz''" by simp
  have absent: "map_of (sessions bob_once) ''zzzzzzzz'' = None" by (simp add: bob_once_facts)
  from C7_proxy_routing [OF free p2 s2] absent
  have a: "proxyHandler (get ''/proxy/zzzzzzzz/vnc.html'') bob_once =
     Returned (HttpError 404 ''Session not found'') bob_once"
    by simp
  from C7_proxy_routing [OF free p1 s1]
  have b: "\<exists>w'. proxyHandler (get ''/proxy/abcdefgh/vnc.html'') bob_once =
      Returned (Forward ''127.0.0.1'' 10008 ''/vnc.html'') w'"
    by (simp add: bob_session_once)
  from free p1 p2 s1 s2 a b show ?thesis by (intro conjI)
qed




section \<open>The reaper\<close>

lemma logout_held: "sessionsMu w \<Longrightarrow> logout r w = Blocked w"
  by (simp add: logout_def stopSession_held)

lemma cleanupLoop_blocks:
  "result_of (cleanup_round w) = None \<Longrightarrow> result_of (cleanupLoop (Suc n) w) = None"
  by (cases "cleanup_round w") simp_all

text \<open>
  C6 does not hold of \<^verbatim>\<open>cleanupLoop\<close>. After Bob's login the table holds his session,
  last active at 660000000000 ns; the next round of the reaper reads 1320000000000 ns, so
  the session has been idle for eleven minutes, more than the threshold of ten. The
  round calls \<^verbatim>\<open>stopSession\<close> while it holds \<^verbatim>\<open>sessionsMu\<close>, so the call, and with it
  the round and the loop, never returns: the session stays in the table, no external call
  is made, the mutex stays held, and a logout that follows blocks as well.
\<close>

theorem C6_reaper_blocks_on_idle_session:
  "map_option (mono_ns \<circ> LastActive) (map_of (sessions bob_once) ''abcdefgh'') =
     Some 660000000000 \<and>
   mono_ns (env_clock (env bob_once) (clock_pos bob_once)) = 1320000000000 \<and>
   sessionExpiry = 600000000000 \<and>
   result_of (cleanup_round bob_once) = None \<and>
   result_of (cleanupLoop 1 bob_once) = None \<and>
   map_option ContainerName (map_of (sessions (world_of (cleanup_round bob_once))) ''abcdefgh'') =
     Some ''desktop-bob-abcdefgh'' \<and>
   trace (world_of (cleanup_round bob_once)) = trace bob_once \<and>
   sessionsMu (world_of (cleanup_round bob_once)) \<and>
   result_of (logout (get ''/logout/abcdefgh'') (world_of (cleanup_round bob_once))) = None"
proof -
  have mono: "clock_monotone bob_once" by (rule demo_clock_monotone) (rule bob_once_facts)
  have now: "mono_ns (env_clock (env bob_once) (clock_pos bob_once)) = 1320000000000"
    by (simp add: bob_once_facts demo_env_def)
  have exp: "sessionExpiry = 600000000000" by (simp add: sessionExpiry_def)
  from cleanup_round_blocks_on_idle [OF bob_once_facts(3) mono bob_session_once]
  have blk: "result_of (cleanup_round bob_once) = None"
    "map_of (sessions (world_of (cleanup_round bob_once))) ''abcdefgh'' =
       map_of (sessions bob_once) ''abcdefgh''"
    "sessionsMu (world_of (cleanup_round bob_once))"
    "trace (world_of (cleanup_round bob_once)) = trace bob_once"
    by (simp_all add: now exp bob_session_once)
  from blk(3) have lo: "result_of (logout (get ''/logout/abcdefgh'')
      (world_of (cleanup_round bob_once))) = None"
    by (simp add: logout_held)
  from blk(1) have loop: "result_of (cleanupLoop 1 bob_once) = None"
    unfolding One_nat_def by (rule cleanupLoop_blocks)
  from now exp blk lo loop show ?thesis by (simp add: bob_session_once del: One_nat_def)
qed

end
